theory Spec2Isabelle
  imports Complex_Main "HOL-Library.AList" "HOL-Library.Sublist"
begin

section \<open>JavaScript values at the SDK boundary\<close>

text \<open>
  The validators receive a value of TypeScript type \<open>unknown\<close>. The values considered are
  plain data, modelled by the datatype \<open>jsval\<close>: \<open>undefined\<close>, \<open>null\<close>, booleans, numbers,
  strings, arrays, and objects with prototype \<open>Object.prototype\<close> whose own properties are
  data properties holding such values. Functions, symbols, bigints and proxies are outside
  the model; an object with an accessor property is considered at the end of the section
  on validation. A JavaScript number is an IEEE double: the finite ones are
  modelled by the rational they denote (every operation the validators apply to a number,
  that is comparison, \<open>Math.max\<close>, \<open>Math.min\<close>, \<open>Number.isInteger\<close> and \<open>Number.isFinite\<close>, is
  exact on doubles, and \<open>-0\<close> is indistinguishable from \<open>0\<close> for all of them), the others
  are \<open>NaN\<close> and the two infinities. An object is the list of its own properties in
  insertion order. Writes to the console are not modelled.
\<close>

datatype jsnum = Fin rat | NaN | PosInf | NegInf

datatype jsval =
    JUndefined
  | JNull
  | JBool bool
  | JNum jsnum
  | JStr string
  | JArr "jsval list"
  | JObj "(string \<times> jsval) list"

type_synonym props = "(string \<times> jsval) list"

datatype ValidationMode = Production | Development

datatype exn =
    UnknownEventTypeError string
  | TypeError
  | InvalidTimestampError
  | InvalidDurationError
  | CapabilityNotDeclaredError string
  | Error string

text \<open>\<open>e[k]\<close> on an object: the property's value, \<open>undefined\<close> when there is none.\<close>

definition get :: "props \<Rightarrow> string \<Rightarrow> jsval" where
  "get e k = (case map_of e k of None \<Rightarrow> JUndefined | Some v \<Rightarrow> v)"

text \<open>\<open>k in e\<close> on an object (own properties).\<close>

definition has :: "props \<Rightarrow> string \<Rightarrow> bool" where
  "has e k = (map_of e k \<noteq> None)"

text \<open>
  Whether the conversion of a value to a string, as in a template literal, returns. On
  plain data it throws a \<open>TypeError\<close> in one case only: an object with an own property
  named \<open>toString\<close> (which hides the inherited method behind a value that cannot be called),
  or an array that has such an object among its elements, since an array is converted by
  converting its elements.
\<close>

fun convertsToString :: "jsval \<Rightarrow> bool" where
  "convertsToString (JObj e) = (\<not> has e ''toString'')"
| "convertsToString (JArr xs) = list_all convertsToString xs"
| "convertsToString v = True"

text \<open>\<open>x < c\<close> for a number \<open>x\<close> and a finite constant \<open>c\<close>: false on \<open>NaN\<close>.\<close>

fun num_less :: "jsnum \<Rightarrow> rat \<Rightarrow> bool" where
  "num_less (Fin r) c = (r < c)"
| "num_less NaN c = False"
| "num_less PosInf c = False"
| "num_less NegInf c = True"

text \<open>\<open>typeof v !== 'number' || v < c\<close>, the test of the counts that gate control flow.\<close>

definition notNumberOrLess :: "jsval \<Rightarrow> rat \<Rightarrow> bool" where
  "notNumberOrLess v c = (case v of JNum n \<Rightarrow> num_less n c | _ \<Rightarrow> True)"

text \<open>\<open>list.includes(v)\<close> for a list of string literals.\<close>

definition includes_str :: "string list \<Rightarrow> jsval \<Rightarrow> bool" where
  "includes_str xs v = (case v of JStr s \<Rightarrow> s \<in> set xs | _ \<Rightarrow> False)"

subsection \<open>Decimal rendering of the numbers that appear in messages\<close>

definition digit :: "nat \<Rightarrow> char" where
  "digit n = ''0123456789'' ! (n mod 10)"

function decimal :: "nat \<Rightarrow> string" where
  "decimal n = (if n < 10 then [digit n] else decimal (n div 10) @ [digit (n mod 10)])"
  by pat_completeness auto
termination
  by (relation "measure id") auto

declare decimal.simps [simp del]

text \<open>
  \<open>String(x)\<close> for a finite number. The validators render only clamped results and byte
  counts, which are integers; on an integer the rendering is the decimal numeral with its
  sign. (A non-integer has no rendering here and is shown by its integer part.)
\<close>

definition String_of :: "rat \<Rightarrow> string" where
  "String_of r = (if r < 0 then CHR ''-'' # decimal (nat (- \<lfloor>r\<rfloor>)) else decimal (nat \<lfloor>r\<rfloor>))"

section \<open>Branded-type guards (types/branded)\<close>

text \<open>\<open>Number.isInteger\<close> on a finite number.\<close>

definition isIntegral :: "rat \<Rightarrow> bool" where
  "isIntegral r = (of_int \<lfloor>r\<rfloor> = r)"

definition isValidDifficulty :: "jsval \<Rightarrow> bool" where
  "isValidDifficulty v =
     (case v of JNum (Fin r) \<Rightarrow> isIntegral r \<and> r \<ge> 1 \<and> r \<le> 10 | _ \<Rightarrow> False)"

definition isValidSessionId :: "jsval \<Rightarrow> bool" where
  "isValidSessionId v = (case v of JStr s \<Rightarrow> length s > 0 | _ \<Rightarrow> False)"

definition isValidLevelId :: "jsval \<Rightarrow> bool" where
  "isValidLevelId v = (case v of JStr s \<Rightarrow> length s > 0 | _ \<Rightarrow> False)"

definition isValidTimestamp :: "jsval \<Rightarrow> bool" where
  "isValidTimestamp v = (case v of JNum (Fin r) \<Rightarrow> isIntegral r \<and> r \<ge> 0 | _ \<Rightarrow> False)"

definition isValidDuration :: "jsval \<Rightarrow> bool" where
  "isValidDuration v = (case v of JNum (Fin r) \<Rightarrow> isIntegral r \<and> r \<ge> 0 | _ \<Rightarrow> False)"

text \<open>
  \<open>createTimestamp\<close> and \<open>createDuration\<close> on a number: the number itself, given as the
  integer it denotes, when \<open>Number.isInteger\<close> holds of it and it is not negative; an
  exception otherwise. \<open>Number.isInteger\<close> is false on \<open>NaN\<close> and on the infinities, and
  \<open>typeof\<close> of a number is \<open>'number'\<close>, so the first test of the source never fires.
\<close>

definition createTimestamp :: "jsnum \<Rightarrow> exn + int" where
  "createTimestamp ts =
     (case ts of
        Fin r \<Rightarrow> if \<not> isIntegral r \<or> r < 0 then Inl InvalidTimestampError else Inr \<lfloor>r\<rfloor>
      | _ \<Rightarrow> Inl InvalidTimestampError)"

definition createDuration :: "jsnum \<Rightarrow> exn + int" where
  "createDuration v =
     (case v of
        Fin r \<Rightarrow> if \<not> isIntegral r \<or> r < 0 then Inl InvalidDurationError else Inr \<lfloor>r\<rfloor>
      | _ \<Rightarrow> Inl InvalidDurationError)"

text \<open>
  \<open>a - b\<close> on numbers. The difference of two finite numbers is taken exact, as it is on
  the integers of magnitude below \<open>2^53\<close> that clocks return; rounding is not modelled.
  The driver uses a difference only through \<open>createDuration\<close>, and rounding the difference
  of two whole numbers gives a whole number of the same sign.
\<close>

fun num_minus :: "jsnum \<Rightarrow> jsnum \<Rightarrow> jsnum" where
  "num_minus (Fin a) (Fin b) = Fin (a - b)"
| "num_minus (Fin a) PosInf = NegInf"
| "num_minus (Fin a) NegInf = PosInf"
| "num_minus PosInf (Fin b) = PosInf"
| "num_minus PosInf NegInf = PosInf"
| "num_minus NegInf (Fin b) = NegInf"
| "num_minus NegInf PosInf = NegInf"
| "num_minus a b = NaN"

section \<open>Event validation (events/event-validators)\<close>

record ValidationResult =
  valid :: bool
  event :: "jsval option"
  errors :: "string list"
  warnings :: "string list"

definition MAX_STATE_BLOB_SIZE :: nat where
  "MAX_STATE_BLOB_SIZE = 1024 * 1024"

definition MAX_EVENT_SIZE :: nat where
  "MAX_EVENT_SIZE = 64 * 1024"

record clampResult =
  cvalue :: rat
  clamped :: bool

definition clampOptional :: "jsval \<Rightarrow> rat \<Rightarrow> rat \<Rightarrow> clampResult option" where
  "clampOptional v lo hi =
     (case v of
        JNum (Fin r) \<Rightarrow>
          (let c = max lo (min hi r) in Some \<lparr>cvalue = c, clamped = (c \<noteq> r)\<rparr>)
      | _ \<Rightarrow> None)"

definition clampNonNegative :: "jsval \<Rightarrow> clampResult option" where
  "clampNonNegative v =
     (case v of
        JNum (Fin r) \<Rightarrow>
          (let c = max 0 r in Some \<lparr>cvalue = c, clamped = (c \<noteq> r)\<rparr>)
      | _ \<Rightarrow> None)"

text \<open>
  \<open>estimateSize\<close> is \<open>new TextEncoder().encode(JSON.stringify(value)).length\<close> inside a
  \<open>try\<close>. The two platform functions are not code of the repository: the model takes
  their composition as the parameter \<open>ser\<close>, the byte length of the serialization, \<open>None\<close>
  when \<open>JSON.stringify\<close> throws.
\<close>

type_synonym serializer = "jsval \<Rightarrow> nat option"

definition estimateSize :: "serializer \<Rightarrow> jsval \<Rightarrow> nat" where
  "estimateSize ser v = (case ser v of Some n \<Rightarrow> n | None \<Rightarrow> MAX_EVENT_SIZE + 1)"

text \<open>
  The two results a per-kind validator returns, and the test \<open>errors.length > 0\<close> that
  chooses between them; \<open>cleaned\<close> is the event itself in the validators that do not copy it.
\<close>

definition reject :: "string list \<Rightarrow> string list \<Rightarrow> ValidationResult" where
  "reject errs warns = \<lparr>valid = False, event = None, errors = errs, warnings = warns\<rparr>"

definition accept :: "jsval \<Rightarrow> string list \<Rightarrow> ValidationResult" where
  "accept ev warns = \<lparr>valid = True, event = Some ev, errors = [], warnings = warns\<rparr>"

definition finish :: "props \<Rightarrow> string list \<Rightarrow> string list \<Rightarrow> ValidationResult" where
  "finish cleaned errs warns =
     (if length errs > 0 then reject errs warns else accept (JObj cleaned) warns)"

text \<open>\<open>if (cond) errors.push(msg)\<close>.\<close>

definition pushIf :: "bool \<Rightarrow> string \<Rightarrow> string list \<Rightarrow> string list" where
  "pushIf cond msg errs = (if cond then errs @ [msg] else errs)"

subsection \<open>Per-kind validators\<close>

definition validateSessionStarted :: "props \<Rightarrow> ValidationMode \<Rightarrow> ValidationResult" where
  "validateSessionStarted e mode =
     (let errs = pushIf (\<not> isValidSessionId (get e ''sessionId''))
                   ''sessionId must be a non-empty string'' []
      in finish e errs [])"

definition validateSessionEnded :: "props \<Rightarrow> ValidationMode \<Rightarrow> ValidationResult" where
  "validateSessionEnded e mode =
     (let errs = pushIf (\<not> isValidSessionId (get e ''sessionId''))
                   ''sessionId must be a non-empty string'' [];
          errs = pushIf (\<not> includes_str [''completed'', ''user_exit'', ''timeout''] (get e ''reason''))
                   ''reason must be one of: completed, user_exit, timeout'' errs;
          errs = pushIf (\<not> isValidDuration (get e ''totalDurationMs''))
                   ''totalDurationMs must be a non-negative integer'' errs
      in finish e errs [])"

definition validateSessionAborted :: "props \<Rightarrow> ValidationMode \<Rightarrow> ValidationResult" where
  "validateSessionAborted e mode =
     (let errs = pushIf (\<not> isValidSessionId (get e ''sessionId''))
                   ''sessionId must be a non-empty string'' [];
          errs = pushIf (\<not> includes_str
                     [''crash'', ''force_close'', ''platform_termination'', ''network_error'']
                     (get e ''reason''))
                   ''reason must be one of: crash, force_close, platform_termination, network_error''
                   errs;
          errs = pushIf (\<not> isValidDuration (get e ''durationBeforeAbortMs''))
                   ''durationBeforeAbortMs must be a non-negative integer'' errs
      in finish e errs [])"

definition validateLevelStarted :: "props \<Rightarrow> ValidationMode \<Rightarrow> ValidationResult" where
  "validateLevelStarted e mode =
     (let errs = pushIf (\<not> isValidLevelId (get e ''levelId''))
                   ''levelId must be a non-empty string'' [];
          errs = pushIf (notNumberOrLess (get e ''attemptNumber'') 1)
                   ''attemptNumber must be a positive integer'' errs;
          errs = pushIf (\<not> isValidDifficulty (get e ''difficulty''))
                   ''difficulty must be an integer between 1 and 10'' errs
      in finish e errs [])"

definition validateLevelCompleted :: "props \<Rightarrow> ValidationMode \<Rightarrow> ValidationResult" where
  "validateLevelCompleted e mode =
     (let errs = pushIf (\<not> isValidLevelId (get e ''levelId''))
                   ''levelId must be a non-empty string'' [];
          errs = pushIf (notNumberOrLess (get e ''attemptNumber'') 1)
                   ''attemptNumber must be a positive integer'' errs;
          errs = pushIf (\<not> isValidDuration (get e ''durationMs''))
                   ''durationMs must be a non-negative integer'' errs;
          errs = pushIf (\<not> isValidDifficulty (get e ''difficulty''))
                   ''difficulty must be an integer between 1 and 10'' errs
      in finish e errs [])"

definition validateLevelFailed :: "props \<Rightarrow> ValidationMode \<Rightarrow> ValidationResult" where
  "validateLevelFailed e mode =
     (let errs = pushIf (\<not> isValidLevelId (get e ''levelId''))
                   ''levelId must be a non-empty string'' [];
          errs = pushIf (notNumberOrLess (get e ''attemptNumber'') 1)
                   ''attemptNumber must be a positive integer'' errs;
          errs = pushIf (\<not> isValidDuration (get e ''durationMs''))
                   ''durationMs must be a non-negative integer'' errs;
          errs = pushIf (\<not> isValidDifficulty (get e ''difficulty''))
                   ''difficulty must be an integer between 1 and 10'' errs;
          errs = pushIf (get e ''failureReason'' \<noteq> JUndefined \<and>
                     \<not> includes_str [''timeout'', ''too_many_errors'', ''user_quit'', ''other'']
                         (get e ''failureReason''))
                   ''failureReason must be one of: timeout, too_many_errors, user_quit, other'' errs
      in finish e errs [])"

definition validateCheckpointReached :: "props \<Rightarrow> ValidationMode \<Rightarrow> ValidationResult" where
  "validateCheckpointReached e mode =
     (let errs = pushIf (\<not> isValidLevelId (get e ''levelId''))
                   ''levelId must be a non-empty string'' [];
          errs = pushIf (case get e ''checkpointId'' of JStr s \<Rightarrow> length s = 0 | _ \<Rightarrow> True)
                   ''checkpointId must be a non-empty string'' errs;
          errs = pushIf (\<not> isValidDuration (get e ''elapsedMs''))
                   ''elapsedMs must be a non-negative integer'' errs
      in finish e errs [])"


text \<open>
  \<open>validatePerformanceReported\<close> repeats one block per field over the triple of the cleaned
  copy of the event, the errors and the warnings: \<open>clamp01Field\<close> is the block of \<open>accuracy\<close>
  and \<open>successRate\<close>, \<open>clampNonNegativeField\<close> the block of the four non-negative fields
  (its result's \<open>clamped\<close> flag is not read there).
\<close>

type_synonym cleaning = "props \<times> string list \<times> string list"

definition clamp01Field :: "string \<Rightarrow> props \<Rightarrow> cleaning \<Rightarrow> cleaning" where
  "clamp01Field k e st =
     (case st of (cleaned, errs, warns) \<Rightarrow>
        if get e k \<noteq> JUndefined then
          (case clampOptional (get e k) 0 1 of
             None \<Rightarrow> (cleaned, errs @ [k @ '' must be a number''], warns)
           | Some res \<Rightarrow>
               (AList.update k (JNum (Fin (cvalue res))) cleaned, errs,
                if clamped res then warns @ [k @ '' clamped to '' @ String_of (cvalue res)]
                else warns))
        else st)"

definition clampNonNegativeField :: "string \<Rightarrow> props \<Rightarrow> cleaning \<Rightarrow> cleaning" where
  "clampNonNegativeField k e st =
     (case st of (cleaned, errs, warns) \<Rightarrow>
        if get e k \<noteq> JUndefined then
          (case clampNonNegative (get e k) of
             None \<Rightarrow> (cleaned, errs @ [k @ '' must be a number''], warns)
           | Some res \<Rightarrow> (AList.update k (JNum (Fin (cvalue res))) cleaned, errs, warns))
        else st)"

definition validatePerformanceReported :: "props \<Rightarrow> ValidationMode \<Rightarrow> ValidationResult" where
  "validatePerformanceReported e mode =
     (let st = (e, [], []);
          st = clamp01Field ''accuracy'' e st;
          st = clamp01Field ''successRate'' e st;
          st = clampNonNegativeField ''reactionTimeMs'' e st;
          st = clampNonNegativeField ''errorCount'' e st;
          st = clampNonNegativeField ''hintsUsed'' e st;
          st = clampNonNegativeField ''streakLength'' e st
      in case st of (cleaned, errs, warns) \<Rightarrow> finish cleaned errs warns)"

definition validateActiveTimeReported :: "props \<Rightarrow> ValidationMode \<Rightarrow> ValidationResult" where
  "validateActiveTimeReported e mode =
     (let errs = pushIf (\<not> isValidDuration (get e ''activeDurationMs''))
                   ''activeDurationMs must be a non-negative integer'' [];
          errs = pushIf (get e ''idleDurationMs'' \<noteq> JUndefined \<and>
                     \<not> isValidDuration (get e ''idleDurationMs''))
                   ''idleDurationMs must be a non-negative integer'' errs;
          errs = pushIf (get e ''pausesCount'' \<noteq> JUndefined \<and>
                     notNumberOrLess (get e ''pausesCount'') 0)
                   ''pausesCount must be a non-negative number'' errs
      in finish e errs [])"

definition validateFrictionReported :: "props \<Rightarrow> ValidationMode \<Rightarrow> ValidationResult" where
  "validateFrictionReported e mode =
     (let errs = pushIf (\<not> isValidDifficulty (get e ''claimedDifficulty''))
                   ''claimedDifficulty must be an integer between 1 and 10'' [];
          errs = pushIf (\<not> includes_str
                     [''memory'', ''focus'', ''speed'', ''regulation'', ''planning'', ''mixed'']
                     (get e ''cognitiveLoadType''))
                   ''cognitiveLoadType must be one of: memory, focus, speed, regulation, planning, mixed''
                   errs
      in finish e errs [])"

definition validateErrorMade :: "props \<Rightarrow> ValidationMode \<Rightarrow> ValidationResult" where
  "validateErrorMade e mode =
     (let errs = pushIf (\<not> includes_str
                     [''wrong_input'', ''timeout'', ''rule_violation'',
                      ''missed_target'', ''wrong_selection'', ''sequence_break'']
                     (get e ''errorType''))
                   ''errorType must be one of: wrong_input, timeout, rule_violation, missed_target, wrong_selection, sequence_break''
                   []
      in finish e errs [])"

definition validateFailureOccurred :: "props \<Rightarrow> ValidationMode \<Rightarrow> ValidationResult" where
  "validateFailureOccurred e mode =
     (let errs = pushIf (\<not> includes_str
                     [''error_threshold'', ''time_expired'', ''resource_depleted'', ''invalid_state'']
                     (get e ''failureType''))
                   ''failureType must be one of: error_threshold, time_expired, resource_depleted, invalid_state''
                   []
      in finish e errs [])"

definition validateSaveGameState ::
  "serializer \<Rightarrow> props \<Rightarrow> ValidationMode \<Rightarrow> ValidationResult" where
  "validateSaveGameState ser e mode =
     (let errs =
            (if \<not> has e ''stateBlob'' then [''stateBlob is required'']
             else (let blobSize = estimateSize ser (get e ''stateBlob'')
                   in pushIf (blobSize > MAX_STATE_BLOB_SIZE)
                        (''stateBlob exceeds size limit ('' @ decimal blobSize @ '' > '' @
                           decimal MAX_STATE_BLOB_SIZE @ '')'') []));
          errs = pushIf (notNumberOrLess (get e ''schemaVersion'') 1)
                   ''schemaVersion must be a positive integer'' errs
      in finish e errs [])"

definition validSignalTypes :: "string list" where
  "validSignalTypes =
     [''felt_easy'', ''felt_hard'', ''felt_stressed'', ''felt_calm'',
      ''wants_more'', ''wants_stop'', ''enjoying'', ''frustrated'']"

definition validateUserSignal :: "props \<Rightarrow> ValidationMode \<Rightarrow> ValidationResult" where
  "validateUserSignal e mode =
     (let errs = pushIf (\<not> includes_str validSignalTypes (get e ''signalType''))
                   ''signalType must be one of: felt_easy, felt_hard, felt_stressed, felt_calm, wants_more, wants_stop, enjoying, frustrated''
                   [];
          (cleaned, warns) =
            (if get e ''value'' \<noteq> JUndefined then
               (case clampOptional (get e ''value'') 0 1 of
                  None \<Rightarrow> (AList.delete ''value'' e, [''value was not a valid number, omitted''])
                | Some res \<Rightarrow>
                    (AList.update ''value'' (JNum (Fin (cvalue res))) e,
                     if clamped res then [''value clamped to '' @ String_of (cvalue res)] else []))
             else (e, []))
      in finish cleaned errs warns)"

definition validateDevLog :: "props \<Rightarrow> ValidationMode \<Rightarrow> ValidationResult" where
  "validateDevLog e mode =
     (let errs = pushIf (case get e ''message'' of JStr s \<Rightarrow> False | _ \<Rightarrow> True)
                   ''message must be a string'' [];
          errs = pushIf (get e ''level'' \<noteq> JUndefined \<and>
                     \<not> includes_str [''debug'', ''info'', ''warn'', ''error''] (get e ''level''))
                   ''level must be one of: debug, info, warn, error'' errs
      in finish e errs [])"

subsection \<open>The main validator\<close>

text \<open>
  \<open>validateEvent\<close> returns a result or throws: \<open>Inl\<close> is the exception. The dispatch on the
  tag is the source's \<open>switch\<close>, its \<open>default\<close> branch last.
\<close>

definition dispatch ::
  "serializer \<Rightarrow> string \<Rightarrow> props \<Rightarrow> ValidationMode \<Rightarrow> exn + ValidationResult" where
  "dispatch ser eventType e mode =
     (if eventType = ''SESSION_STARTED'' then Inr (validateSessionStarted e mode)
      else if eventType = ''SESSION_ENDED'' then Inr (validateSessionEnded e mode)
      else if eventType = ''SESSION_ABORTED'' then Inr (validateSessionAborted e mode)
      else if eventType = ''LEVEL_STARTED'' then Inr (validateLevelStarted e mode)
      else if eventType = ''LEVEL_COMPLETED'' then Inr (validateLevelCompleted e mode)
      else if eventType = ''LEVEL_FAILED'' then Inr (validateLevelFailed e mode)
      else if eventType = ''CHECKPOINT_REACHED'' then Inr (validateCheckpointReached e mode)
      else if eventType = ''PERFORMANCE_REPORTED'' then Inr (validatePerformanceReported e mode)
      else if eventType = ''ACTIVE_TIME_REPORTED'' then Inr (validateActiveTimeReported e mode)
      else if eventType = ''FRICTION_REPORTED'' then Inr (validateFrictionReported e mode)
      else if eventType = ''ERROR_MADE'' then Inr (validateErrorMade e mode)
      else if eventType = ''FAILURE_OCCURRED'' then Inr (validateFailureOccurred e mode)
      else if eventType = ''SAVE_GAME_STATE'' then Inr (validateSaveGameState ser e mode)
      else if eventType = ''USER_SIGNAL'' then Inr (validateUserSignal e mode)
      else if eventType = ''DEV_LOG'' then Inr (validateDevLog e mode)
      else if mode = Development then Inl (UnknownEventTypeError eventType)
      else Inr (reject [''Unknown event type: '' @ eventType] []))"

text \<open>
  The check of the \<open>type\<close> field and the size check, on the value \<open>ev\<close> and its
  properties \<open>e\<close>, and then the dispatch.
\<close>

definition checkedDispatch ::
  "serializer \<Rightarrow> jsval \<Rightarrow> props \<Rightarrow> ValidationMode \<Rightarrow> exn + ValidationResult" where
  "checkedDispatch ser ev e mode =
     (case get e ''type'' of
        JStr eventType \<Rightarrow>
          if \<not> has e ''type'' then Inr (reject [''Event must have a string type field''] [])
          else
            (let eventSize = estimateSize ser ev in
             if eventSize > MAX_EVENT_SIZE then
               Inr (reject [''Event exceeds size limit ('' @ decimal eventSize @ '' > '' @
                              decimal MAX_EVENT_SIZE @ '')''] [])
             else dispatch ser eventType e mode)
      | _ \<Rightarrow> Inr (reject [''Event must have a string type field''] []))"

text \<open>
  An array is an object for \<open>typeof\<close>; it has no property named \<open>type\<close>, so it is
  validated as the object without properties.
\<close>

definition validateEvent :: "serializer \<Rightarrow> jsval \<Rightarrow> ValidationMode \<Rightarrow> exn + ValidationResult" where
  "validateEvent ser ev mode =
     (case ev of
        JObj e \<Rightarrow> checkedDispatch ser ev e mode
      | JArr xs \<Rightarrow> checkedDispatch ser ev [] mode
      | _ \<Rightarrow> Inr (reject [''Event must be an object''] []))"

text \<open>The tags of the event vocabulary, the \<open>case\<close> labels of the \<open>switch\<close>.\<close>

definition eventTags :: "string list" where
  "eventTags =
     [''SESSION_STARTED'', ''SESSION_ENDED'', ''SESSION_ABORTED'', ''LEVEL_STARTED'',
      ''LEVEL_COMPLETED'', ''LEVEL_FAILED'', ''CHECKPOINT_REACHED'', ''PERFORMANCE_REPORTED'',
      ''ACTIVE_TIME_REPORTED'', ''FRICTION_REPORTED'', ''ERROR_MADE'', ''FAILURE_OCCURRED'',
      ''SAVE_GAME_STATE'', ''USER_SIGNAL'', ''DEV_LOG'']"

subsection \<open>Values that are not plain data\<close>

text \<open>
  The parameter of \<open>validateEvent\<close> has type \<open>unknown\<close>, and a guest can pass an object
  with an accessor property. The one considered here is an object whose own property
  \<open>type\<close> is an accessor whose getter throws, its other own properties being data. For
  such an object \<open>typeof event\<close> is \<open>'object'\<close> and \<open>'type' in event\<close> holds, so the type
  field check reads \<open>event['type']\<close>: the getter is called, outside any \<open>try\<close> and in
  both modes, and what it throws leaves \<open>validateEvent\<close>.
\<close>

datatype rawEvent = PlainData jsval | ThrowingTypeGetter exn props

definition validateRawEvent ::
  "serializer \<Rightarrow> rawEvent \<Rightarrow> ValidationMode \<Rightarrow> exn + ValidationResult" where
  "validateRawEvent ser raw mode =
     (case raw of
        PlainData ev \<Rightarrow> validateEvent ser ev mode
      | ThrowingTypeGetter error e \<Rightarrow> Inl error)"

section \<open>Event lifecycle gate (platform/eventGate)\<close>

text \<open>
  The context snapshot of the session driver. The static fields of the three shapes
  (metadata, accessibility preferences, theme mode, organisation configuration,
  progression, saved game state) are copied from the configuration unchanged and are left
  out; the fields that depend on the lifecycle are kept.
\<close>

datatype SessionState = INITIAL | IN_SESSION | ENDED

datatype GameContext =
    InitialContext
  | InSessionContext string int
  | SessionEndedContext string int

fun state :: "GameContext \<Rightarrow> SessionState" where
  "state InitialContext = INITIAL"
| "state (InSessionContext sid startTime) = IN_SESSION"
| "state (SessionEndedContext sid duration) = ENDED"

datatype DropReasonCode =
    BEFORE_SESSION
  | SESSION_ID_MISMATCH
  | AFTER_SESSION_ENDED
  | INVALID_STATE_FOR_EVENT

text \<open>
  What the gated emit does with an event: it calls \<open>platformEmit\<close> on it, or it calls
  \<open>drop\<close>, which passes the event, a message and a code to \<open>onEventDropped\<close> when there is
  one, or it throws. The text of the message is left out; building it converts the tag to
  a string, which is where the gated emit can throw. The event is an object, as the
  parameter's type says, with any properties.
\<close>

datatype GateAction = Forwarded props | Dropped props DropReasonCode | GateThrew exn

record GatedEmitOptions =
  allowDevLogAfterEnd :: "bool option"

definition hasSessionId :: "props \<Rightarrow> bool" where
  "hasSessionId e = (has e ''sessionId'' \<and> (case get e ''sessionId'' of JStr s \<Rightarrow> True | _ \<Rightarrow> False))"

text \<open>A call of \<open>drop\<close> whose message is built from \<open>event.type\<close>.\<close>

definition dropNamingType :: "props \<Rightarrow> DropReasonCode \<Rightarrow> GateAction" where
  "dropNamingType e code =
     (if convertsToString (get e ''type'') then Dropped e code else GateThrew TypeError)"

text \<open>
  The function returned by \<open>createGatedEmit\<close>, applied to the snapshot it reads from the
  driver and to the event. The option defaults to \<open>false\<close>.
\<close>

definition createGatedEmit :: "GatedEmitOptions \<Rightarrow> GameContext \<Rightarrow> props \<Rightarrow> GateAction" where
  "createGatedEmit options ctx e =
     (let allow = (case allowDevLogAfterEnd options of None \<Rightarrow> False | Some b \<Rightarrow> b) in
      case ctx of
        InitialContext \<Rightarrow>
          if get e ''type'' = JStr ''DEV_LOG'' then Forwarded e
          else dropNamingType e BEFORE_SESSION
      | InSessionContext sessionId startTime \<Rightarrow>
          if hasSessionId e then
            (if get e ''sessionId'' \<noteq> JStr sessionId then Dropped e SESSION_ID_MISMATCH
             else Forwarded e)
          else Forwarded e
      | SessionEndedContext sessionId duration \<Rightarrow>
          if get e ''type'' = JStr ''DEV_LOG'' \<and> allow then Forwarded e
          else dropNamingType e AFTER_SESSION_ENDED)"

section \<open>Event emitter (events/event-emitter)\<close>

text \<open>
  A call either returns or throws; the state it has written stays written in both cases.
\<close>

datatype outcome = Returned | Threw exn

definition MAX_EVENTS_PER_SECOND :: nat where
  "MAX_EVENTS_PER_SECOND = 50"

definition RATE_LIMIT_WINDOW_MS :: int where
  "RATE_LIMIT_WINDOW_MS = 1000"

record EmittedEvent =
  emittedEvent :: jsval
  timestamp :: nat
  emittedSessionId :: "string option"
  emittedGameId :: string
  emittedSdkVersion :: string

text \<open>
  A handler receives the enriched event and returns, \<open>None\<close>, or throws, \<open>Some\<close>. The
  field \<open>configMode\<close> is the source's \<open>mode\<close>; what \<open>getSessionId\<close> does when called is in
  \<open>reads\<close> below.
\<close>

type_synonym EventHandler = "EmittedEvent \<Rightarrow> exn option"

record EventEmitterConfig =
  gameId :: string
  sdkVersion :: string
  configMode :: ValidationMode
  handlers :: "EventHandler list"

text \<open>
  What one call of \<open>emit\<close> reads from its environment: \<open>Date.now()\<close> in \<open>checkRateLimit\<close>,
  \<open>getSessionId()\<close>, and \<open>Date.now()\<close> again in \<open>createTimestamp\<close>. \<open>Date.now()\<close> is a
  natural number of milliseconds, on which \<open>createTimestamp\<close> does not throw.
  \<open>getSessionId\<close> is a function of the host: it returns a session identifier or
  \<open>undefined\<close>, or it throws.
\<close>

record reads =
  rateNow :: nat
  sessionIdNow :: "exn + string option"
  stampNow :: nat

text \<open>
  The variables of the closure of \<open>createEventEmitter\<close>; the configuration, which the
  closure never changes, is an argument of each call. \<open>calls\<close> is the trace of the handler
  invocations, the handler's position in the list with the argument, in the order they
  are made.
\<close>

record EmitterState =
  eventCount :: nat
  droppedCount :: nat
  rateLimitWindowStart :: nat
  eventsInWindow :: nat
  calls :: "(nat \<times> EmittedEvent) list"

definition createEventEmitter :: "nat \<Rightarrow> EmitterState" where
  "createEventEmitter now =
     \<lparr>eventCount = 0, droppedCount = 0, rateLimitWindowStart = now, eventsInWindow = 0,
      calls = []\<rparr>"

definition checkRateLimit :: "nat \<Rightarrow> EmitterState \<Rightarrow> bool \<times> EmitterState" where
  "checkRateLimit now st =
     (let st1 = (if int now - int (rateLimitWindowStart st) \<ge> RATE_LIMIT_WINDOW_MS
                 then st\<lparr>rateLimitWindowStart := now, eventsInWindow := 0\<rparr> else st)
      in if eventsInWindow st1 \<ge> MAX_EVENTS_PER_SECOND then (False, st1)
         else (True, st1\<lparr>eventsInWindow := eventsInWindow st1 + 1\<rparr>))"

text \<open>
  \<open>event.type\<close>: a \<open>TypeError\<close> on \<open>null\<close> and \<open>undefined\<close>, the property on an object,
  \<open>undefined\<close> on every other value (none of them has a property of that name). In
  development mode the warning of a rate-limited call is built from \<open>event.type\<close> converted
  to a string; in production mode \<open>event.type\<close> is compared with the tag \<open>DEV_LOG\<close>.
\<close>

definition eventType :: "jsval \<Rightarrow> exn + jsval" where
  "eventType ev =
     (case ev of
        JNull \<Rightarrow> Inl TypeError
      | JUndefined \<Rightarrow> Inl TypeError
      | JObj e \<Rightarrow> Inr (get e ''type'')
      | _ \<Rightarrow> Inr JUndefined)"

text \<open>The loop over the handlers, each call in its own \<open>try\<close>.\<close>

fun deliver :: "EventHandler list \<Rightarrow> EmittedEvent \<Rightarrow> nat \<Rightarrow> EmitterState \<Rightarrow> EmitterState" where
  "deliver [] emitted i st = st"
| "deliver (handler # rest) emitted i st =
     (case handler emitted of
        None \<Rightarrow> deliver rest emitted (Suc i) (st\<lparr>calls := calls st @ [(i, emitted)]\<rparr>)
      | Some handlerError \<Rightarrow>
          deliver rest emitted (Suc i) (st\<lparr>calls := calls st @ [(i, emitted)]\<rparr>))"

text \<open>The enriched event: \<open>result.event ?? event\<close> with the injected metadata.\<close>

definition enrich ::
  "EventEmitterConfig \<Rightarrow> reads \<Rightarrow> string option \<Rightarrow> jsval \<Rightarrow> ValidationResult \<Rightarrow> EmittedEvent" where
  "enrich config rd sid ev result =
     \<lparr>emittedEvent = (case event result of Some cleaned \<Rightarrow> cleaned | None \<Rightarrow> ev),
      timestamp = stampNow rd,
      emittedSessionId = sid,
      emittedGameId = gameId config,
      emittedSdkVersion = sdkVersion config\<rparr>"

text \<open>
  The part of \<open>emit\<close> from the call of the validator on. The validator is called inside a
  \<open>try\<close>, \<open>getSessionId\<close> after it and outside any: what it throws leaves \<open>emit\<close>, with the
  counters as they are.
\<close>

definition validateAndDeliver ::
  "serializer \<Rightarrow> EventEmitterConfig \<Rightarrow> reads \<Rightarrow> jsval \<Rightarrow> EmitterState \<Rightarrow> outcome \<times> EmitterState" where
  "validateAndDeliver ser config rd ev st =
     (case validateEvent ser ev (configMode config) of
        Inl error \<Rightarrow> (Returned, st\<lparr>droppedCount := droppedCount st + 1\<rparr>)
      | Inr result \<Rightarrow>
          if \<not> valid result then (Returned, st\<lparr>droppedCount := droppedCount st + 1\<rparr>)
          else
            (case sessionIdNow rd of
               Inl error \<Rightarrow> (Threw error, st)
             | Inr sid \<Rightarrow>
                 (let st1 = deliver (handlers config) (enrich config rd sid ev result) 0 st
                  in (Returned, st1\<lparr>eventCount := eventCount st1 + 1\<rparr>))))"

definition emit ::
  "serializer \<Rightarrow> EventEmitterConfig \<Rightarrow> reads \<Rightarrow> jsval \<Rightarrow> EmitterState \<Rightarrow> outcome \<times> EmitterState" where
  "emit ser config rd ev st =
     (case checkRateLimit (rateNow rd) st of
        (False, st1) \<Rightarrow>
          (let st2 = st1\<lparr>droppedCount := droppedCount st1 + 1\<rparr> in
           if configMode config = Development then
             (case eventType ev of
                Inl error \<Rightarrow> (Threw error, st2)
              | Inr t \<Rightarrow> if convertsToString t then (Returned, st2) else (Threw TypeError, st2))
           else (Returned, st2))
      | (True, st1) \<Rightarrow>
          if configMode config = Production then
            (case eventType ev of
               Inl error \<Rightarrow> (Threw error, st1)
             | Inr t \<Rightarrow>
                 if t = JStr ''DEV_LOG'' then (Returned, st1)
                 else validateAndDeliver ser config rd ev st1)
          else validateAndDeliver ser config rd ev st1)"

definition resetRateLimiter :: "nat \<Rightarrow> EmitterState \<Rightarrow> EmitterState" where
  "resetRateLimiter now st = st\<lparr>rateLimitWindowStart := now, eventsInWindow := 0\<rparr>"

text \<open>A sequence of calls of \<open>emit\<close>, whatever each call's outcome.\<close>

fun emits ::
  "serializer \<Rightarrow> EventEmitterConfig \<Rightarrow> (reads \<times> jsval) list \<Rightarrow> EmitterState \<Rightarrow> EmitterState" where
  "emits ser config [] st = st"
| "emits ser config ((rd, ev) # rest) st = emits ser config rest (snd (emit ser config rd ev st))"

text \<open>
  The rate limiter's decisions along a sequence of calls: for each call the window start
  after the limiter's reset step, the time of the call, and whether the call was let
  through.
\<close>

fun decisions ::
  "serializer \<Rightarrow> EventEmitterConfig \<Rightarrow> (reads \<times> jsval) list \<Rightarrow> EmitterState \<Rightarrow>
   (nat \<times> nat \<times> bool) list" where
  "decisions ser config [] st = []"
| "decisions ser config ((rd, ev) # rest) st =
     (rateLimitWindowStart (snd (checkRateLimit (rateNow rd) st)), rateNow rd,
      fst (checkRateLimit (rateNow rd) st))
     # decisions ser config rest (snd (emit ser config rd ev st))"

text \<open>The calls let through under the window that started at \<open>w\<close>.\<close>

definition admittedInWindow :: "nat \<Rightarrow> (nat \<times> nat \<times> bool) list \<Rightarrow> nat" where
  "admittedInWindow w ds = length (filter (\<lambda>(w', t, ok). ok \<and> w' = w) ds)"

text \<open>The calls let through at a time \<open>t\<close> with \<open>lo \<le> t < lo + 1000\<close>.\<close>

definition admittedWithinSecondFrom :: "nat \<Rightarrow> (nat \<times> nat \<times> bool) list \<Rightarrow> nat" where
  "admittedWithinSecondFrom lo ds =
     length (filter (\<lambda>(w', t, ok). ok \<and> lo \<le> t \<and> t < lo + 1000) ds)"

section \<open>Session lifecycle driver (platform/session)\<close>

text \<open>
  The variables of the closure of \<open>createSessionDriver\<close>. The start time and the duration
  are JavaScript numbers. The listeners are a JavaScript \<open>Set\<close> of functions, kept as the
  language defines it: the list of its entries in insertion order, where \<open>delete\<close> empties
  the entry of the value, \<open>None\<close>, and \<open>add\<close> appends an entry unless the value has one. A
  listener is named by a number. \<open>notified\<close> is the trace of the listener invocations, in
  the order they are made.
\<close>

record DriverState =
  currentState :: SessionState
  sessionId :: "string option"
  startTime :: "jsnum option"
  sessionDurationMs :: "jsnum option"
  listeners :: "nat option list"
  notified :: "(nat \<times> GameContext) list"

definition createSessionDriver :: DriverState where
  "createSessionDriver =
     \<lparr>currentState = INITIAL, sessionId = None, startTime = None, sessionDurationMs = None,
      listeners = [], notified = []\<rparr>"

definition stateName :: "SessionState \<Rightarrow> string" where
  "stateName s = (case s of INITIAL \<Rightarrow> ''INITIAL'' | IN_SESSION \<Rightarrow> ''IN_SESSION'' | ENDED \<Rightarrow> ''ENDED'')"

definition createContextSnapshot :: "DriverState \<Rightarrow> exn + GameContext" where
  "createContextSnapshot s =
     (case currentState s of
        INITIAL \<Rightarrow> Inr InitialContext
      | IN_SESSION \<Rightarrow>
          (case (sessionId s, startTime s) of
             (Some sid, Some t) \<Rightarrow>
               (case createTimestamp t of
                  Inl error \<Rightarrow> Inl error
                | Inr ts \<Rightarrow> Inr (InSessionContext sid ts))
           | _ \<Rightarrow> Inl (Error ''[SDK] Invalid state: IN_SESSION without sessionId''))
      | ENDED \<Rightarrow>
          (case (sessionId s, sessionDurationMs s) of
             (Some sid, Some d) \<Rightarrow>
               (case createDuration d of
                  Inl error \<Rightarrow> Inl error
                | Inr duration \<Rightarrow> Inr (SessionEndedContext sid duration))
           | _ \<Rightarrow> Inl (Error ''[SDK] Invalid state: ENDED without session data'')))"

definition getContext :: "DriverState \<Rightarrow> exn + GameContext" where
  "getContext s = createContextSnapshot s"

definition isSessionActive :: "DriverState \<Rightarrow> bool" where
  "isSessionActive s = (currentState s = IN_SESSION)"

text \<open>\<open>subscribe\<close> adds to the set; the function it returns deletes from it.\<close>

definition subscribe :: "nat \<Rightarrow> DriverState \<Rightarrow> DriverState" where
  "subscribe listener s =
     s\<lparr>listeners := (if Some listener \<in> set (listeners s) then listeners s
                      else listeners s @ [Some listener])\<rparr>"

definition unsubscribe :: "nat \<Rightarrow> DriverState \<Rightarrow> DriverState" where
  "unsubscribe listener s =
     s\<lparr>listeners := map (\<lambda>entry. if entry = Some listener then None else entry) (listeners s)\<rparr>"

text \<open>
  A call of the driver returns or throws, \<open>Some\<close>, or has not returned yet, \<open>None\<close>: a
  listener can subscribe a new listener each time it is called, and the loop over the
  live set then never ends, so the number of listener invocations made on behalf of one
  call is bounded by a parameter of the model.

  \<open>notifyListeners\<close> takes the snapshot once, outside any \<open>try\<close>, and runs the loop over the
  listeners. The loop is given as a parameter here and defined below, because the
  listeners it calls can call the driver.
\<close>

definition notifyListeners ::
  "(GameContext \<Rightarrow> DriverState \<Rightarrow> bool \<times> DriverState) \<Rightarrow> DriverState \<Rightarrow>
   outcome option \<times> DriverState" where
  "notifyListeners loop s =
     (case createContextSnapshot s of
        Inl error \<Rightarrow> (Some (Threw error), s)
      | Inr ctx \<Rightarrow>
          (case loop ctx s of
             (True, s1) \<Rightarrow> (Some Returned, s1)
           | (False, s1) \<Rightarrow> (None, s1)))"

text \<open>
  The transitions. The injected clock \<open>nowMs\<close> is a function of the host, read once by a
  legal transition: what it does then, returning a number or throwing, is an argument.
\<close>

definition startSession ::
  "(GameContext \<Rightarrow> DriverState \<Rightarrow> bool \<times> DriverState) \<Rightarrow> string \<Rightarrow> exn + jsnum \<Rightarrow>
   DriverState \<Rightarrow> outcome option \<times> DriverState" where
  "startSession loop sid nowMs s =
     (if currentState s \<noteq> INITIAL then
        (Some (Threw (Error (''[SDK] Cannot start session: already in state '' @
                              stateName (currentState s)))), s)
      else
        (case nowMs of
           Inl error \<Rightarrow> (Some (Threw error), s\<lparr>sessionId := Some sid\<rparr>)
         | Inr now \<Rightarrow>
             notifyListeners loop
               (s\<lparr>sessionId := Some sid, startTime := Some now, currentState := IN_SESSION\<rparr>)))"

definition endSession ::
  "(GameContext \<Rightarrow> DriverState \<Rightarrow> bool \<times> DriverState) \<Rightarrow> string \<Rightarrow> exn + jsnum \<Rightarrow>
   DriverState \<Rightarrow> outcome option \<times> DriverState" where
  "endSession loop reason nowMs s =
     (if currentState s \<noteq> IN_SESSION then
        (Some (Threw (Error (''[SDK] Cannot end session: not in session (state: '' @
                              stateName (currentState s) @ '')''))), s)
      else
        (case nowMs of
           Inl error \<Rightarrow> (Some (Threw error), s)
         | Inr now \<Rightarrow>
             notifyListeners loop
               (s\<lparr>sessionDurationMs :=
                     Some (num_minus now (case startTime s of Some t \<Rightarrow> t | None \<Rightarrow> Fin 0)),
                  currentState := ENDED\<rparr>)))"

definition abortSession ::
  "(GameContext \<Rightarrow> DriverState \<Rightarrow> bool \<times> DriverState) \<Rightarrow> string \<Rightarrow> exn + jsnum \<Rightarrow>
   DriverState \<Rightarrow> outcome option \<times> DriverState" where
  "abortSession loop reason nowMs s =
     (if currentState s \<noteq> IN_SESSION then
        (Some (Threw (Error (''[SDK] Cannot abort session: not in session (state: '' @
                              stateName (currentState s) @ '')''))), s)
      else
        (case nowMs of
           Inl error \<Rightarrow> (Some (Threw error), s)
         | Inr now \<Rightarrow>
             notifyListeners loop
               (s\<lparr>sessionDurationMs :=
                     Some (num_minus now (case startTime s of Some t \<Rightarrow> t | None \<Rightarrow> Fin 0)),
                  currentState := ENDED\<rparr>)))"

text \<open>
  The calls that change a driver, made by the host or by a listener while it is being
  notified.
\<close>

datatype DriverCall =
    StartSession string "exn + jsnum"
  | EndSession string "exn + jsnum"
  | AbortSession string "exn + jsnum"
  | Subscribe nat
  | Unsubscribe nat

fun call ::
  "(GameContext \<Rightarrow> DriverState \<Rightarrow> bool \<times> DriverState) \<Rightarrow> DriverCall \<Rightarrow> DriverState \<Rightarrow>
   outcome option \<times> DriverState" where
  "call loop (StartSession sid nowMs) s = startSession loop sid nowMs s"
| "call loop (EndSession reason nowMs) s = endSession loop reason nowMs s"
| "call loop (AbortSession reason nowMs) s = abortSession loop reason nowMs s"
| "call loop (Subscribe listener) s = (Some Returned, subscribe listener s)"
| "call loop (Unsubscribe listener) s = (Some Returned, unsubscribe listener s)"

text \<open>
  What a listener does when it is called: it returns or throws, \<open>Finish\<close>, or it first
  calls the driver and goes on according to the outcome of that call and to the state the
  driver is then in, \<open>Do\<close>. The behaviour of the listeners is a parameter: the body that
  listener \<open>l\<close> runs when it is called on a snapshot, which may depend on the state of the
  driver at that moment (what \<open>getContext\<close> and \<open>isSessionActive\<close> return, and everything
  notified so far).
\<close>

datatype script = Finish "exn option" | Do DriverCall "outcome \<times> DriverState \<Rightarrow> script"

type_synonym behaviour = "nat \<Rightarrow> GameContext \<Rightarrow> DriverState \<Rightarrow> script"

primrec exec ::
  "(DriverCall \<Rightarrow> DriverState \<Rightarrow> outcome option \<times> DriverState) \<Rightarrow> script \<Rightarrow> DriverState \<Rightarrow>
   outcome option \<times> DriverState" where
  "exec perform (Finish thrown) s =
     (Some (case thrown of None \<Rightarrow> Returned | Some error \<Rightarrow> Threw error), s)"
| "exec perform (Do c continue) s =
     (case perform c s of
        (None, s1) \<Rightarrow> (None, s1)
      | (Some result, s1) \<Rightarrow> exec perform (continue (result, s1)) s1)"

text \<open>
  The loop of \<open>notifyListeners\<close>, \<open>for (const listener of listeners)\<close> with each call in its
  own \<open>try\<close>, from the entry at index \<open>i\<close> on. It iterates over the live set: entries added
  while it runs are visited, entries emptied before their turn are not. What a listener
  throws is discarded. The first argument bounds the listener invocations and entries
  still to be visited, nested notifications included; the result says whether the loop
  has come to its end.
\<close>

primrec notifyFrom ::
  "nat \<Rightarrow> behaviour \<Rightarrow> GameContext \<Rightarrow> nat \<Rightarrow> DriverState \<Rightarrow> bool \<times> DriverState" where
  "notifyFrom 0 react ctx i s = (length (listeners s) \<le> i, s)"
| "notifyFrom (Suc n) react ctx i s =
     (if length (listeners s) \<le> i then (True, s)
      else
        (case listeners s ! i of
           None \<Rightarrow> notifyFrom n react ctx (Suc i) s
         | Some listener \<Rightarrow>
             (let called = s\<lparr>notified := notified s @ [(listener, ctx)]\<rparr> in
              case exec (call (\<lambda>ctx1 s1. notifyFrom n react ctx1 0 s1))
                     (react listener ctx called) called of
                (None, s1) \<Rightarrow> (False, s1)
              | (Some result, s1) \<Rightarrow> notifyFrom n react ctx (Suc i) s1)))"

text \<open>A call made by the host, and a sequence of them on one instance, up to the first
  call that does not return.\<close>

definition hostCall ::
  "nat \<Rightarrow> behaviour \<Rightarrow> DriverCall \<Rightarrow> DriverState \<Rightarrow> outcome option \<times> DriverState" where
  "hostCall n react c s = call (\<lambda>ctx s1. notifyFrom n react ctx 0 s1) c s"

fun run :: "nat \<Rightarrow> behaviour \<Rightarrow> DriverCall list \<Rightarrow> DriverState \<Rightarrow> DriverState" where
  "run n react [] s = s"
| "run n react (c # cs) s =
     (case hostCall n react c s of
        (None, s1) \<Rightarrow> s1
      | (Some result, s1) \<Rightarrow> run n react cs s1)"

text \<open>The states a listener has observed, in order.\<close>

definition observedBy :: "nat \<Rightarrow> DriverState \<Rightarrow> SessionState list" where
  "observedBy listener s =
     map (\<lambda>(l, ctx). state ctx) (filter (\<lambda>(l, ctx). l = listener) (notified s))"

section \<open>Capability guard (core/capability-guard)\<close>

text \<open>
  A capability is its name. The permission checker and the two factories are functions of
  the host: each returns a value of its type or throws. The type of the capability APIs is
  a parameter.
\<close>

record PermissionResult =
  granted :: bool
  reason :: "string option"

record 'api CapabilityGuardConfig =
  declaredCapabilities :: "string list"
  checkPermission :: "(string \<Rightarrow> exn + PermissionResult) option"
  apiFactory :: "string \<Rightarrow> exn + 'api"
  noOpApiFactory :: "string \<Rightarrow> exn + 'api"

record 'api CapabilityResult =
  isAvailable :: bool
  api :: 'api
  unavailableReason :: "string option"

definition defaultPermissionChecker :: "string \<Rightarrow> exn + PermissionResult" where
  "defaultPermissionChecker capability = Inr \<lparr>granted = True, reason = None\<rparr>"

text \<open>The checker in use: the configured one, the default when there is none.\<close>

definition permissionChecker :: "'api CapabilityGuardConfig \<Rightarrow> string \<Rightarrow> exn + PermissionResult" where
  "permissionChecker config =
     (case checkPermission config of None \<Rightarrow> defaultPermissionChecker | Some f \<Rightarrow> f)"

text \<open>
  The part of \<open>getCapability\<close> after the permission check, in its first \<open>try\<close>: the real
  API when permission is granted and the factory returns, \<open>None\<close> when the code falls
  through to the no-op.
\<close>

definition realApi :: "'api CapabilityGuardConfig \<Rightarrow> string \<Rightarrow> PermissionResult \<Rightarrow> 'api option" where
  "realApi config capability permissionResult =
     (if granted permissionResult then
        (case apiFactory config capability of Inr a \<Rightarrow> Some a | Inl error \<Rightarrow> None)
      else None)"

text \<open>
  \<open>getCapability\<close>: the declaration check, the permission check, which is called outside
  any \<open>try\<close> so that what it throws leaves \<open>getCapability\<close>, and the two factories, each
  called inside a \<open>try\<close>.
\<close>

definition getCapability :: "'api CapabilityGuardConfig \<Rightarrow> string \<Rightarrow> exn + 'api CapabilityResult" where
  "getCapability config capability =
     (if capability \<notin> set (declaredCapabilities config) then
        Inl (CapabilityNotDeclaredError capability)
      else
        (case permissionChecker config capability of
           Inl error \<Rightarrow> Inl error
         | Inr permissionResult \<Rightarrow>
             (case realApi config capability permissionResult of
                Some a \<Rightarrow> Inr \<lparr>isAvailable = True, api = a, unavailableReason = None\<rparr>
              | None \<Rightarrow>
                  (case noOpApiFactory config capability of
                     Inl error \<Rightarrow>
                       Inl (Error (''SDK internal error: cannot create no-op API for '' @
                                   [CHR 0x27] @ capability @ [CHR 0x27]))
                   | Inr noOpApi \<Rightarrow>
                       Inr \<lparr>isAvailable = False, api = noOpApi,
                            unavailableReason =
                              Some (case reason permissionResult of
                                      Some r \<Rightarrow> r | None \<Rightarrow> ''internal_error'')\<rparr>))))"

section \<open>Notions used to state the properties\<close>

text \<open>
  An event that reaches the \<open>default\<close> branch of the \<open>switch\<close>: a non-null object within the
  event size ceiling whose \<open>type\<close> is a string outside the vocabulary.
\<close>

definition unrecognized :: "serializer \<Rightarrow> jsval \<Rightarrow> bool" where
  "unrecognized ser ev =
     (case ev of
        JObj e \<Rightarrow>
          (case get e ''type'' of
             JStr t \<Rightarrow> estimateSize ser ev \<le> MAX_EVENT_SIZE \<and> t \<notin> set eventTags
           | _ \<Rightarrow> False)
      | _ \<Rightarrow> False)"

text \<open>
  A serializer given by a table of the values it is asked about, each with the byte length
  of its JSON text; used to evaluate the validator on concrete events.
\<close>

definition serTable :: "(jsval \<times> nat) list \<Rightarrow> serializer" where
  "serTable t v = map_of t v"

definition finiteNumber :: "jsval \<Rightarrow> bool" where
  "finiteNumber v = (case v of JNum (Fin r) \<Rightarrow> True | _ \<Rightarrow> False)"

definition numericOrAbsent :: "jsval \<Rightarrow> bool" where
  "numericOrAbsent v = (v = JUndefined \<or> finiteNumber v)"

text \<open>A property of the cleaned event of a result.\<close>

definition cleanedField :: "ValidationResult \<Rightarrow> string \<Rightarrow> jsval" where
  "cleanedField res k = (case event res of Some (JObj c) \<Rightarrow> get c k | _ \<Rightarrow> JUndefined)"

definition cleanedHas :: "ValidationResult \<Rightarrow> string \<Rightarrow> bool" where
  "cleanedHas res k = (case event res of Some (JObj c) \<Rightarrow> has c k | _ \<Rightarrow> False)"

text \<open>The analytics fields of \<open>PERFORMANCE_REPORTED\<close>, in the order the validator visits them.\<close>

definition unitFields :: "string list" where
  "unitFields = [''accuracy'', ''successRate'']"

definition nonNegativeFields :: "string list" where
  "nonNegativeFields = [''reactionTimeMs'', ''errorCount'', ''hintsUsed'', ''streakLength'']"

definition perfNumeric :: "props \<Rightarrow> bool" where
  "perfNumeric e = list_all (\<lambda>k. numericOrAbsent (get e k)) (unitFields @ nonNegativeFields)"

text \<open>
  A state-save event whose blob is the string of 70000 letters \<open>a\<close>, and the serializer on
  the two values the validator serializes: the blob's JSON text has 70002 bytes, the
  event's, \<open>{"type":"SAVE_GAME_STATE","stateBlob":"a...a","schemaVersion":1}\<close>, has 70059.
\<close>

definition exampleBlob :: jsval where
  "exampleBlob = JStr (replicate 70000 CHR ''a'')"

definition exampleSaveEvent :: jsval where
  "exampleSaveEvent =
     JObj [(''type'', JStr ''SAVE_GAME_STATE''), (''stateBlob'', exampleBlob),
           (''schemaVersion'', JNum (Fin 1))]"

definition exampleSer :: serializer where
  "exampleSer = serTable [(exampleBlob, 70002), (exampleSaveEvent, 70059)]"

text \<open>The six field blocks of \<open>validatePerformanceReported\<close> applied in sequence.\<close>

definition perfSteps :: "props \<Rightarrow> cleaning" where
  "perfSteps e =
     clampNonNegativeField ''streakLength'' e
       (clampNonNegativeField ''hintsUsed'' e
         (clampNonNegativeField ''errorCount'' e
           (clampNonNegativeField ''reactionTimeMs'' e
             (clamp01Field ''successRate'' e
               (clamp01Field ''accuracy'' e (e, [], []))))))"


text \<open>Two handlers, one that throws and one that returns, and an emitter configuration.\<close>

definition failingHandler :: EventHandler where
  "failingHandler emitted = Some (Error ''handler failed'')"

definition quietHandler :: EventHandler where
  "quietHandler emitted = None"

definition exampleConfig :: "ValidationMode \<Rightarrow> EventEmitterConfig" where
  "exampleConfig m =
     \<lparr>gameId = ''memory-match'', sdkVersion = ''0.1.0'', configMode = m,
      handlers = [failingHandler, quietHandler]\<rparr>"

definition readsAt :: "nat \<Rightarrow> reads" where
  "readsAt t = \<lparr>rateNow = t, sessionIdNow = Inr (Some ''s1''), stampNow = t\<rparr>"

definition sessionStarted :: jsval where
  "sessionStarted = JObj [(''type'', JStr ''SESSION_STARTED''), (''sessionId'', JStr ''s1'')]"

text \<open>The JSON text of \<open>sessionStarted\<close> has 43 bytes.\<close>

definition sessionStartedSer :: serializer where
  "sessionStartedSer = serTable [(sessionStarted, 43)]"

text \<open>The listeners in the set, in insertion order.\<close>

fun live :: "nat option list \<Rightarrow> nat list" where
  "live [] = []"
| "live (None # entries) = live entries"
| "live (Some l # entries) = l # live entries"

text \<open>
  Listeners that only observe: called on a snapshot, each returns or throws without
  calling the driver.
\<close>

definition observers :: "behaviour \<Rightarrow> bool" where
  "observers react = (\<forall>l ctx s. \<exists>thrown. react l ctx s = Finish thrown)"

text \<open>A trace in which no snapshot is in the state \<open>INITIAL\<close>.\<close>

definition started :: "DriverState \<Rightarrow> bool" where
  "started s = list_all (\<lambda>(l, ctx). state ctx \<noteq> INITIAL) (notified s)"



text \<open>
  Listeners that throw on every snapshot; and listeners of which number 0, called on an
  \<open>IN_SESSION\<close> snapshot, ends the session, at clock reading 2000, before it returns.
\<close>

definition alwaysThrows :: behaviour where
  "alwaysThrows l ctx s = Finish (Some (Error ''listener failed''))"

definition endsWhenStarted :: behaviour where
  "endsWhenStarted l ctx s =
     (if l = 0 \<and> state ctx = IN_SESSION
      then Do (EndSession ''completed'' (Inr (Fin 2000))) (\<lambda>result. Finish None)
      else Finish None)"

text \<open>
  A guard configuration whose real factory throws, one whose checker denies, and one
  whose checker throws.
\<close>

definition brokenFactoryConfig :: "string CapabilityGuardConfig" where
  "brokenFactoryConfig =
     \<lparr>declaredCapabilities = [''audio'', ''haptics''], checkPermission = None,
      apiFactory = (\<lambda>c. Inl (Error ''no audio device'')),
      noOpApiFactory = (\<lambda>c. Inr (''noop-'' @ c))\<rparr>"

definition quietModeChecker :: "string \<Rightarrow> exn + PermissionResult" where
  "quietModeChecker c = Inr \<lparr>granted = False, reason = Some ''quiet mode''\<rparr>"

definition deniedConfig :: "string CapabilityGuardConfig" where
  "deniedConfig =
     \<lparr>declaredCapabilities = [''audio'', ''haptics''], checkPermission = Some quietModeChecker,
      apiFactory = (\<lambda>c. Inr (''real-'' @ c)),
      noOpApiFactory = (\<lambda>c. Inr (''noop-'' @ c))\<rparr>"

definition failingCheckerConfig :: "string CapabilityGuardConfig" where
  "failingCheckerConfig =
     \<lparr>declaredCapabilities = [''audio'', ''haptics''],
      checkPermission = Some (\<lambda>c. Inl (Error ''permission service unavailable'')),
      apiFactory = (\<lambda>c. Inr (''real-'' @ c)),
      noOpApiFactory = (\<lambda>c. Inr (''noop-'' @ c))\<rparr>"

text \<open>An event whose \<open>type\<close> can be read and converted to a string.\<close>

definition typeConverts :: "jsval \<Rightarrow> bool" where
  "typeConverts ev = (case eventType ev of Inr t \<Rightarrow> convertsToString t | Inl error \<Rightarrow> False)"







section \<open>Properties of the validation engine\<close>

lemma get_has: "get e k = JStr t \<Longrightarrow> has e k"
  by (auto simp: get_def has_def split: option.splits)

lemma get_Nil: "get [] k = JUndefined"
  by (simp add: get_def)

lemma get_update: "get (AList.update k v c) k' = (if k' = k then v else get c k')"
  by (simp add: get_def update_conv')

lemma dispatch_throws:
  "(\<exists>x. dispatch ser t e mode = Inl x) \<longleftrightarrow> (mode = Development \<and> t \<notin> set eventTags)"
  by (simp add: dispatch_def eventTags_def)

lemma dispatch_prod:
  "t \<notin> set eventTags \<Longrightarrow>
   dispatch ser t e Production = Inr (reject [''Unknown event type: '' @ t] [])"
  by (simp add: dispatch_def eventTags_def)

lemma validateEvent_obj:
  "get e ''type'' = JStr t \<Longrightarrow> estimateSize ser (JObj e) \<le> MAX_EVENT_SIZE \<Longrightarrow>
   validateEvent ser (JObj e) mode = dispatch ser t e mode"
  by (simp add: validateEvent_def checkedDispatch_def get_has)

lemma throws_iff:
  "(\<exists>x. validateEvent ser ev mode = Inl x) \<longleftrightarrow> (mode = Development \<and> unrecognized ser ev)"
  by (auto simp: validateEvent_def checkedDispatch_def unrecognized_def get_has get_Nil
        dispatch_throws Let_def split: jsval.splits)

text \<open>
  C8, as amended. On plain data \<open>validateEvent\<close> throws if and only if the mode is
  development and the raw event is a non-null object within the event size ceiling whose
  string \<open>type\<close> is not a tag of the vocabulary; the same input in production mode gives a
  result with \<open>valid = False\<close>; every other plain-data input, in either mode, gives a
  result.
\<close>

theorem validateEvent_throws_only_unknown_tag_in_development:
  "((\<exists>x. validateRawEvent ser (PlainData ev) mode = Inl x)
      \<longleftrightarrow> (mode = Development \<and> unrecognized ser ev)) \<and>
   (unrecognized ser ev \<longrightarrow>
      (\<exists>r. validateRawEvent ser (PlainData ev) Production = Inr r \<and> \<not> valid r)) \<and>
   (\<not> (mode = Development \<and> unrecognized ser ev) \<longrightarrow>
      (\<exists>r. validateRawEvent ser (PlainData ev) mode = Inr r))"
proof (intro conjI impI)
  show "(\<exists>x. validateRawEvent ser (PlainData ev) mode = Inl x)
      \<longleftrightarrow> (mode = Development \<and> unrecognized ser ev)"
    using throws_iff [of ser ev mode] by (simp add: validateRawEvent_def)
next
  assume u: "unrecognized ser ev"
  then obtain e t where ev: "ev = JObj e" and t: "get e ''type'' = JStr t"
    and sz: "estimateSize ser ev \<le> MAX_EVENT_SIZE" and nt: "t \<notin> set eventTags"
    by (auto simp: unrecognized_def split: jsval.splits)
  have "validateEvent ser ev Production = Inr (reject [''Unknown event type: '' @ t] [])"
    using validateEvent_obj [of e t ser Production] ev t sz dispatch_prod [OF nt] by simp
  then show "\<exists>r. validateRawEvent ser (PlainData ev) Production = Inr r \<and> \<not> valid r"
    by (simp add: reject_def validateRawEvent_def)
next
  assume "\<not> (mode = Development \<and> unrecognized ser ev)"
  then have "\<not> (\<exists>x. validateEvent ser ev mode = Inl x)"
    using throws_iff [of ser ev mode] by blast
  then show "\<exists>r. validateRawEvent ser (PlainData ev) mode = Inr r"
    by (cases "validateEvent ser ev mode") (auto simp: validateRawEvent_def)
qed

text \<open>
  The claim of C8 fails as stated. In production mode \<open>validateEvent\<close> throws on an object
  whose property \<open>type\<close> is an accessor that throws: the validator reads the property
  outside any \<open>try\<close>.
\<close>

theorem validateEvent_throws_in_production_on_throwing_type_getter:
  "validateRawEvent (serTable []) (ThrowingTypeGetter (Error ''getter failed'') []) Production
     = Inl (Error ''getter failed'')"
  by (simp add: validateRawEvent_def)

theorem validateEvent_throws_only_unknown_tag_in_development_witness:
  "unrecognized (serTable [(JObj [(''type'', JStr ''NOPE'')], 15)])
     (JObj [(''type'', JStr ''NOPE'')]) \<and>
   validateRawEvent (serTable [(JObj [(''type'', JStr ''NOPE'')], 15)])
     (PlainData (JObj [(''type'', JStr ''NOPE'')])) Development
       = Inl (UnknownEventTypeError ''NOPE'') \<and>
   (\<exists>r. validateRawEvent (serTable [(JObj [(''type'', JStr ''NOPE'')], 15)])
          (PlainData (JObj [(''type'', JStr ''NOPE'')])) Production = Inr r \<and> \<not> valid r) \<and>
   (\<exists>r. validateRawEvent (serTable [(JObj [(''type'', JStr ''NOPE'')], 15)]) (PlainData JNull)
          Development = Inr r)"
  using validateEvent_throws_only_unknown_tag_in_development
          [of "serTable [(JObj [(''type'', JStr ''NOPE'')], 15)]"
              "JObj [(''type'', JStr ''NOPE'')]" Development]
        validateEvent_throws_only_unknown_tag_in_development
          [of "serTable [(JObj [(''type'', JStr ''NOPE'')], 15)]" JNull Development]
  by (simp add: unrecognized_def serTable_def get_def estimateSize_def MAX_EVENT_SIZE_def
        eventTags_def validateEvent_def validateRawEvent_def checkedDispatch_def dispatch_def
        has_def)

subsection \<open>The field blocks of the performance validator\<close>

lemma clamp01Field_errs:
  "fst (snd (clamp01Field k e st)) =
     fst (snd st) @ (if numericOrAbsent (get e k) then [] else [k @ '' must be a number''])"
  by (cases st) (auto simp: clamp01Field_def clampOptional_def numericOrAbsent_def finiteNumber_def Let_def
        split: jsval.splits jsnum.splits)

lemma clampNonNegativeField_errs:
  "fst (snd (clampNonNegativeField k e st)) =
     fst (snd st) @ (if numericOrAbsent (get e k) then [] else [k @ '' must be a number''])"
  by (cases st) (auto simp: clampNonNegativeField_def clampNonNegative_def numericOrAbsent_def finiteNumber_def Let_def
        split: jsval.splits jsnum.splits)

lemma clamp01Field_get_other:
  "k' \<noteq> k \<Longrightarrow> get (fst (clamp01Field k e st)) k' = get (fst st) k'"
  by (cases st) (auto simp: clamp01Field_def get_update split: option.splits)

lemma clampNonNegativeField_get_other:
  "k' \<noteq> k \<Longrightarrow> get (fst (clampNonNegativeField k e st)) k' = get (fst st) k'"
  by (cases st) (auto simp: clampNonNegativeField_def get_update split: option.splits)

lemma clamp01Field_get_same:
  "get e k = JNum (Fin r) \<Longrightarrow>
   get (fst (clamp01Field k e st)) k = JNum (Fin (max 0 (min 1 r)))"
  by (cases st) (simp add: clamp01Field_def clampOptional_def get_update Let_def)

lemma clampNonNegativeField_get_same:
  "get e k = JNum (Fin r) \<Longrightarrow>
   get (fst (clampNonNegativeField k e st)) k = JNum (Fin (max 0 r))"
  by (cases st) (simp add: clampNonNegativeField_def clampNonNegative_def get_update Let_def)

lemma clamp01Field_warns:
  "get e k = JNum (Fin r) \<Longrightarrow> r < 0 \<or> 1 < r \<Longrightarrow> snd (snd (clamp01Field k e st)) \<noteq> []"
  by (cases st) (auto simp: clamp01Field_def clampOptional_def Let_def)

lemma clamp01Field_warns_mono:
  "snd (snd st) \<noteq> [] \<Longrightarrow> snd (snd (clamp01Field k e st)) \<noteq> []"
  by (cases st) (auto simp: clamp01Field_def split: option.splits)

lemma clampNonNegativeField_warns:
  "snd (snd (clampNonNegativeField k e st)) = snd (snd st)"
  by (cases st) (auto simp: clampNonNegativeField_def split: option.splits)

lemma validatePerformanceReported_steps:
  "validatePerformanceReported e mode =
     finish (fst (perfSteps e)) (fst (snd (perfSteps e))) (snd (snd (perfSteps e)))"
  by (simp add: validatePerformanceReported_def perfSteps_def Let_def split_beta)

lemma perfSteps_errs_Nil: "fst (snd (perfSteps e)) = [] \<longleftrightarrow> perfNumeric e"
  by (simp add: perfSteps_def clamp01Field_errs clampNonNegativeField_errs perfNumeric_def
        unitFields_def nonNegativeFields_def)

lemma perf_valid_iff: "valid (validatePerformanceReported e mode) \<longleftrightarrow> perfNumeric e"
  by (simp add: validatePerformanceReported_steps finish_def reject_def accept_def perfSteps_errs_Nil)

lemma perf_cleaned:
  "perfNumeric e \<Longrightarrow>
   validatePerformanceReported e mode = accept (JObj (fst (perfSteps e))) (snd (snd (perfSteps e)))"
  by (simp add: validatePerformanceReported_steps finish_def perfSteps_errs_Nil)

lemma perf_unit_field:
  assumes "k \<in> set unitFields" "get e k = JNum (Fin r)"
  shows "get (fst (perfSteps e)) k = JNum (Fin (max 0 (min 1 r)))"
    and "r < 0 \<or> 1 < r \<Longrightarrow> snd (snd (perfSteps e)) \<noteq> []"
  using assms
  by (auto simp: unitFields_def perfSteps_def clamp01Field_get_other clampNonNegativeField_get_other
        clamp01Field_get_same clampNonNegativeField_warns clamp01Field_warns clamp01Field_warns_mono)

lemma perf_nonneg_field:
  assumes "k \<in> set nonNegativeFields" "get e k = JNum (Fin r)"
  shows "get (fst (perfSteps e)) k = JNum (Fin (max 0 r))"
  using assms
  by (auto simp: nonNegativeFields_def perfSteps_def clamp01Field_get_other clampNonNegativeField_get_other
        clampNonNegativeField_get_same)

lemma perf_error_member:
  assumes "k \<in> set (unitFields @ nonNegativeFields)" "\<not> numericOrAbsent (get e k)"
  shows "(k @ '' must be a number'') \<in> set (fst (snd (perfSteps e)))"
  using assms
  by (auto simp: unitFields_def nonNegativeFields_def perfSteps_def clamp01Field_errs clampNonNegativeField_errs)


subsection \<open>Clamping of analytics fields\<close>

lemma cleanedField_accept: "cleanedField (accept (JObj c) w) k = get c k"
  by (simp add: cleanedField_def accept_def)

lemma cleanedHas_accept: "cleanedHas (accept (JObj c) w) k = has c k"
  by (simp add: cleanedHas_def accept_def)

lemma dispatch_perf: "dispatch ser ''PERFORMANCE_REPORTED'' e mode = Inr (validatePerformanceReported e mode)"
  by (simp add: dispatch_def)

lemma dispatch_signal: "dispatch ser ''USER_SIGNAL'' e mode = Inr (validateUserSignal e mode)"
  by (simp add: dispatch_def)

lemma dispatch_save: "dispatch ser ''SAVE_GAME_STATE'' e mode = Inr (validateSaveGameState ser e mode)"
  by (simp add: dispatch_def)

lemma signal_clamped:
  assumes "includes_str validSignalTypes (get e ''signalType'')" "get e ''value'' = JNum (Fin r)"
  shows "validateUserSignal e mode =
           accept (JObj (AList.update ''value'' (JNum (Fin (max 0 (min 1 r)))) e))
             (if max 0 (min 1 r) \<noteq> r then [''value clamped to '' @ String_of (max 0 (min 1 r))] else [])"
  using assms by (simp add: validateUserSignal_def pushIf_def clampOptional_def finish_def Let_def)

lemma signal_omitted:
  assumes "includes_str validSignalTypes (get e ''signalType'')"
    "get e ''value'' \<noteq> JUndefined" "\<not> finiteNumber (get e ''value'')"
  shows "validateUserSignal e mode =
           accept (JObj (AList.delete ''value'' e)) [''value was not a valid number, omitted'']"
  using assms by (auto simp: validateUserSignal_def pushIf_def clampOptional_def finish_def Let_def finiteNumber_def
      split: jsval.splits jsnum.splits)

lemma has_delete: "\<not> has (AList.delete k e) k"
  by (simp add: has_def delete_conv')

text \<open>
  C5, as amended. Let the event be an object within the size ceiling and let one of its
  analytics fields hold a finite number \<open>r\<close>. For \<open>accuracy\<close> and \<open>successRate\<close> of a
  \<open>PERFORMANCE_REPORTED\<close> event whose analytics fields are all absent or finite numbers, and
  for \<open>value\<close> of a \<open>USER_SIGNAL\<close> event with a recognized \<open>signalType\<close>: if \<open>r\<close> is outside
  \<open>[0, 1]\<close> the result is valid, the cleaned event holds the nearest bound and the warnings
  are not empty. For \<open>reactionTimeMs\<close>, \<open>errorCount\<close>, \<open>hintsUsed\<close> and \<open>streakLength\<close>: if \<open>r\<close>
  is negative the result is valid and the cleaned event holds \<open>0\<close>.
\<close>

theorem finite_out_of_range_analytics_clamped:
  assumes "estimateSize ser (JObj e) \<le> MAX_EVENT_SIZE" and "get e k = JNum (Fin r)"
  shows
   "(get e ''type'' = JStr ''PERFORMANCE_REPORTED'' \<and> perfNumeric e \<and> k \<in> set unitFields \<and>
       (r < 0 \<or> 1 < r) \<longrightarrow>
       (\<exists>res. validateEvent ser (JObj e) mode = Inr res \<and> valid res \<and>
          cleanedField res k = JNum (Fin (if r < 0 then 0 else 1)) \<and> warnings res \<noteq> [])) \<and>
    (get e ''type'' = JStr ''PERFORMANCE_REPORTED'' \<and> perfNumeric e \<and> k \<in> set nonNegativeFields \<and>
       r < 0 \<longrightarrow>
       (\<exists>res. validateEvent ser (JObj e) mode = Inr res \<and> valid res \<and>
          cleanedField res k = JNum (Fin 0))) \<and>
    (get e ''type'' = JStr ''USER_SIGNAL'' \<and> includes_str validSignalTypes (get e ''signalType'') \<and>
       k = ''value'' \<and> (r < 0 \<or> 1 < r) \<longrightarrow>
       (\<exists>res. validateEvent ser (JObj e) mode = Inr res \<and> valid res \<and>
          cleanedField res k = JNum (Fin (if r < 0 then 0 else 1)) \<and> warnings res \<noteq> []))"
proof (intro conjI impI)
  assume h: "get e ''type'' = JStr ''PERFORMANCE_REPORTED'' \<and> perfNumeric e \<and> k \<in> set unitFields \<and>
       (r < 0 \<or> 1 < r)"
  then have v: "validateEvent ser (JObj e) mode =
       Inr (accept (JObj (fst (perfSteps e))) (snd (snd (perfSteps e))))"
    using validateEvent_obj [OF _ assms(1), of "''PERFORMANCE_REPORTED''" mode]
    by (simp add: dispatch_perf perf_cleaned)
  have "max 0 (min 1 r) = (if r < 0 then 0 else 1)" using h by auto
  then show "\<exists>res. validateEvent ser (JObj e) mode = Inr res \<and> valid res \<and>
          cleanedField res k = JNum (Fin (if r < 0 then 0 else 1)) \<and> warnings res \<noteq> []"
    using h v perf_unit_field [OF _ assms(2), of ]
    apply (simp add: cleanedField_accept)
    apply (simp add: accept_def)
    done
next
  assume h: "get e ''type'' = JStr ''PERFORMANCE_REPORTED'' \<and> perfNumeric e \<and>
      k \<in> set nonNegativeFields \<and> r < 0"
  then have v: "validateEvent ser (JObj e) mode =
       Inr (accept (JObj (fst (perfSteps e))) (snd (snd (perfSteps e))))"
    using validateEvent_obj [OF _ assms(1), of "''PERFORMANCE_REPORTED''" mode]
    by (simp add: dispatch_perf perf_cleaned)
  have "max 0 r = 0" using h by auto
  then show "\<exists>res. validateEvent ser (JObj e) mode = Inr res \<and> valid res \<and>
          cleanedField res k = JNum (Fin 0)"
    using h v perf_nonneg_field [OF _ assms(2)]
    apply (simp add: cleanedField_accept)
    apply (simp add: accept_def)
    done
next
  assume h: "get e ''type'' = JStr ''USER_SIGNAL'' \<and> includes_str validSignalTypes (get e ''signalType'') \<and>
       k = ''value'' \<and> (r < 0 \<or> 1 < r)"
  then have v: "validateEvent ser (JObj e) mode = Inr (validateUserSignal e mode)"
    using validateEvent_obj [OF _ assms(1), of "''USER_SIGNAL''" mode]
    by (simp add: dispatch_signal)
  have m: "max 0 (min 1 r) = (if r < 0 then 0 else 1)" "max 0 (min 1 r) \<noteq> r" using h by auto
  show "\<exists>res. validateEvent ser (JObj e) mode = Inr res \<and> valid res \<and>
          cleanedField res k = JNum (Fin (if r < 0 then 0 else 1)) \<and> warnings res \<noteq> []"
    using h v m signal_clamped [of e r mode] assms(2)
    apply (simp add: cleanedField_accept get_update)
    apply (simp add: accept_def)
    done
qed



lemmas eval_defs = serTable_def get_def has_def estimateSize_def MAX_EVENT_SIZE_def
  validateEvent_def checkedDispatch_def dispatch_def finish_def accept_def reject_def pushIf_def
  validatePerformanceReported_def clamp01Field_def clampNonNegativeField_def
  clampOptional_def clampNonNegative_def validateUserSignal_def validSignalTypes_def
  includes_str_def String_of_def decimal.simps digit_def cleanedField_def cleanedHas_def
  perfNumeric_def unitFields_def nonNegativeFields_def numericOrAbsent_def finiteNumber_def

theorem finite_out_of_range_analytics_clamped_witness:
  "(\<exists>res. validateEvent
            (serTable [(JObj [(''type'', JStr ''PERFORMANCE_REPORTED''), (''accuracy'', JNum (Fin (3/2)))], 46)])
            (JObj [(''type'', JStr ''PERFORMANCE_REPORTED''), (''accuracy'', JNum (Fin (3/2)))])
            Production = Inr res \<and>
          valid res \<and> cleanedField res ''accuracy'' = JNum (Fin 1) \<and> warnings res \<noteq> []) \<and>
   (\<exists>res. validateEvent
            (serTable [(JObj [(''type'', JStr ''PERFORMANCE_REPORTED''), (''reactionTimeMs'', JNum (Fin (-5)))], 51)])
            (JObj [(''type'', JStr ''PERFORMANCE_REPORTED''), (''reactionTimeMs'', JNum (Fin (-5)))])
            Production = Inr res \<and>
          valid res \<and> cleanedField res ''reactionTimeMs'' = JNum (Fin 0)) \<and>
   (\<exists>res. validateEvent
            (serTable [(JObj [(''type'', JStr ''USER_SIGNAL''), (''signalType'', JStr ''enjoying''),
                              (''value'', JNum (Fin (3/2)))], 58)])
            (JObj [(''type'', JStr ''USER_SIGNAL''), (''signalType'', JStr ''enjoying''),
                   (''value'', JNum (Fin (3/2)))])
            Production = Inr res \<and>
          valid res \<and> cleanedField res ''value'' = JNum (Fin 1) \<and> warnings res \<noteq> [])"
proof (intro conjI)
  let ?e = "[(''type'', JStr ''PERFORMANCE_REPORTED''), (''accuracy'', JNum (Fin (3/2)))]"
  let ?ser = "serTable [(JObj ?e, 46)]"
  have s: "estimateSize ?ser (JObj ?e) \<le> MAX_EVENT_SIZE"
    by (simp add: serTable_def estimateSize_def MAX_EVENT_SIZE_def)
  have g: "get ?e ''accuracy'' = JNum (Fin (3/2))" by (simp add: get_def)
  have h: "get ?e ''type'' = JStr ''PERFORMANCE_REPORTED'' \<and> perfNumeric ?e \<and>
      ''accuracy'' \<in> set unitFields \<and> ((3/2::rat) < 0 \<or> 1 < (3/2::rat))"
    by (simp add: get_def perfNumeric_def unitFields_def nonNegativeFields_def
          numericOrAbsent_def finiteNumber_def)
  show "\<exists>res. validateEvent ?ser (JObj ?e) Production = Inr res \<and>
          valid res \<and> cleanedField res ''accuracy'' = JNum (Fin 1) \<and> warnings res \<noteq> []"
    using finite_out_of_range_analytics_clamped [OF s g, of Production] h by simp
next
  let ?e = "[(''type'', JStr ''PERFORMANCE_REPORTED''), (''reactionTimeMs'', JNum (Fin (-5)))]"
  let ?ser = "serTable [(JObj ?e, 51)]"
  have s: "estimateSize ?ser (JObj ?e) \<le> MAX_EVENT_SIZE"
    by (simp add: serTable_def estimateSize_def MAX_EVENT_SIZE_def)
  have g: "get ?e ''reactionTimeMs'' = JNum (Fin (-5))" by (simp add: get_def)
  have h: "get ?e ''type'' = JStr ''PERFORMANCE_REPORTED'' \<and> perfNumeric ?e \<and>
      ''reactionTimeMs'' \<in> set nonNegativeFields \<and> (-5::rat) < 0"
    by (simp add: get_def perfNumeric_def unitFields_def nonNegativeFields_def
          numericOrAbsent_def finiteNumber_def)
  show "\<exists>res. validateEvent ?ser (JObj ?e) Production = Inr res \<and>
          valid res \<and> cleanedField res ''reactionTimeMs'' = JNum (Fin 0)"
    using finite_out_of_range_analytics_clamped [OF s g, of Production] h by simp
next
  let ?e = "[(''type'', JStr ''USER_SIGNAL''), (''signalType'', JStr ''enjoying''),
             (''value'', JNum (Fin (3/2)))]"
  let ?ser = "serTable [(JObj ?e, 58)]"
  have s: "estimateSize ?ser (JObj ?e) \<le> MAX_EVENT_SIZE"
    by (simp add: serTable_def estimateSize_def MAX_EVENT_SIZE_def)
  have g: "get ?e ''value'' = JNum (Fin (3/2))" by (simp add: get_def)
  have h: "get ?e ''type'' = JStr ''USER_SIGNAL'' \<and>
      includes_str validSignalTypes (get ?e ''signalType'') \<and> ''value'' = ''value'' \<and>
      ((3/2::rat) < 0 \<or> 1 < (3/2::rat))"
    by (simp add: get_def includes_str_def validSignalTypes_def)
  show "\<exists>res. validateEvent ?ser (JObj ?e) Production = Inr res \<and>
          valid res \<and> cleanedField res ''value'' = JNum (Fin 1) \<and> warnings res \<noteq> []"
    using finite_out_of_range_analytics_clamped [OF s g, of Production] h by simp
qed

text \<open>
  The claim of C5 fails as stated: \<open>Infinity\<close> is a number out of range, and a
  \<open>PERFORMANCE_REPORTED\<close> event whose \<open>accuracy\<close> is \<open>Infinity\<close> is rejected, not clamped.
\<close>

theorem infinite_accuracy_rejected:
  "validateEvent
     (serTable [(JObj [(''type'', JStr ''PERFORMANCE_REPORTED''), (''accuracy'', JNum PosInf)], 47)])
     (JObj [(''type'', JStr ''PERFORMANCE_REPORTED''), (''accuracy'', JNum PosInf)]) Production
   = Inr \<lparr>valid = False, event = None, errors = [''accuracy must be a number''], warnings = []\<rparr>"
  by (simp add: eval_defs)

text \<open>
  The four non-negative fields are clamped without a warning: the \<open>clamped\<close> flag of
  \<open>clampNonNegative\<close> is never read.
\<close>

lemma negative_reaction_time_clamped_without_warning:
  "validateEvent
     (serTable [(JObj [(''type'', JStr ''PERFORMANCE_REPORTED''), (''reactionTimeMs'', JNum (Fin (-5)))], 51)])
     (JObj [(''type'', JStr ''PERFORMANCE_REPORTED''), (''reactionTimeMs'', JNum (Fin (-5)))]) Production
   = Inr \<lparr>valid = True,
          event = Some (JObj [(''type'', JStr ''PERFORMANCE_REPORTED''), (''reactionTimeMs'', JNum (Fin 0))]),
          errors = [], warnings = []\<rparr>"
  by (simp add: eval_defs)

subsection \<open>Analytics fields that are not numbers\<close>

text \<open>
  The claim of C6 fails as stated: a \<open>PERFORMANCE_REPORTED\<close> event whose \<open>accuracy\<close> is a
  string is rejected.
\<close>

theorem non_numeric_accuracy_rejected:
  "validateEvent
     (serTable [(JObj [(''type'', JStr ''PERFORMANCE_REPORTED''), (''accuracy'', JStr ''high'')], 49)])
     (JObj [(''type'', JStr ''PERFORMANCE_REPORTED''), (''accuracy'', JStr ''high'')]) Production
   = Inr \<lparr>valid = False, event = None, errors = [''accuracy must be a number''], warnings = []\<rparr>"
  by (simp add: eval_defs)

text \<open>
  C6, as amended. Let the event be an object within the size ceiling with an analytics
  field that is present but is not a finite number. If it is \<open>value\<close> of a \<open>USER_SIGNAL\<close>
  event with a recognized \<open>signalType\<close>, the result is valid, the cleaned event has no
  \<open>value\<close> and the one warning says so. If it is any of the six analytics fields of a
  \<open>PERFORMANCE_REPORTED\<close> event, the event is rejected with the error
  \<open><field> must be a number\<close>.
\<close>

theorem non_numeric_analytics_omitted_or_rejected:
  assumes "estimateSize ser (JObj e) \<le> MAX_EVENT_SIZE"
    and "get e k \<noteq> JUndefined" and "\<not> finiteNumber (get e k)"
  shows
   "(get e ''type'' = JStr ''USER_SIGNAL'' \<and> includes_str validSignalTypes (get e ''signalType'') \<and>
       k = ''value'' \<longrightarrow>
       (\<exists>res. validateEvent ser (JObj e) mode = Inr res \<and> valid res \<and>
          \<not> cleanedHas res ''value'' \<and> warnings res = [''value was not a valid number, omitted''])) \<and>
    (get e ''type'' = JStr ''PERFORMANCE_REPORTED'' \<and> k \<in> set (unitFields @ nonNegativeFields) \<longrightarrow>
       (\<exists>res. validateEvent ser (JObj e) mode = Inr res \<and> \<not> valid res \<and>
          (k @ '' must be a number'') \<in> set (errors res)))"
proof (intro conjI impI)
  assume h: "get e ''type'' = JStr ''USER_SIGNAL'' \<and>
      includes_str validSignalTypes (get e ''signalType'') \<and> k = ''value''"
  then have v: "validateEvent ser (JObj e) mode = Inr (validateUserSignal e mode)"
    using validateEvent_obj [OF _ assms(1), of "''USER_SIGNAL''" mode]
    by (simp add: dispatch_signal)
  show "\<exists>res. validateEvent ser (JObj e) mode = Inr res \<and> valid res \<and>
          \<not> cleanedHas res ''value'' \<and> warnings res = [''value was not a valid number, omitted'']"
    using h v assms(2,3) signal_omitted [of e mode]
    apply (simp add: cleanedHas_accept has_delete)
    apply (simp add: accept_def)
    done
next
  assume h: "get e ''type'' = JStr ''PERFORMANCE_REPORTED'' \<and> k \<in> set (unitFields @ nonNegativeFields)"
  then have v: "validateEvent ser (JObj e) mode = Inr (validatePerformanceReported e mode)"
    using validateEvent_obj [OF _ assms(1), of "''PERFORMANCE_REPORTED''" mode]
    by (simp add: dispatch_perf)
  have n: "\<not> numericOrAbsent (get e k)" using assms(2,3) by (simp add: numericOrAbsent_def)
  have m: "(k @ '' must be a number'') \<in> set (fst (snd (perfSteps e)))"
    using perf_error_member [OF _ n] h by simp
  then have ne: "fst (snd (perfSteps e)) \<noteq> []" by auto
  show "\<exists>res. validateEvent ser (JObj e) mode = Inr res \<and> \<not> valid res \<and>
          (k @ '' must be a number'') \<in> set (errors res)"
    using v m ne by (simp add: validatePerformanceReported_steps finish_def reject_def)
qed

subsection \<open>The two size ceilings\<close>

lemma exampleBlob_neq: "exampleBlob \<noteq> exampleSaveEvent"
  by (simp add: exampleBlob_def exampleSaveEvent_def)

text \<open>
  C7. The claim says that a \<open>SAVE_GAME_STATE\<close> event with valid structural fields whose
  blob serializes to at most 1024 * 1024 bytes is accepted. The validator does otherwise
  on the example event: its blob has 70002 bytes, below the blob ceiling, and the event is
  rejected by the 64KB check on the whole event, which runs before the dispatch.
\<close>

theorem save_state_blob_below_blob_ceiling_rejected:
  "estimateSize exampleSer exampleBlob \<le> MAX_STATE_BLOB_SIZE \<and>
   validateEvent exampleSer exampleSaveEvent mode =
     Inr \<lparr>valid = False, event = None,
          errors = [''Event exceeds size limit (70059 > 65536)''], warnings = []\<rparr>"
proof
  show "estimateSize exampleSer exampleBlob \<le> MAX_STATE_BLOB_SIZE"
    by (simp add: exampleSer_def serTable_def estimateSize_def MAX_STATE_BLOB_SIZE_def)
  have sz: "estimateSize exampleSer exampleSaveEvent = 70059"
    using exampleBlob_neq by (simp add: exampleSer_def serTable_def estimateSize_def)
  have d1: "decimal 70059 = ''70059''" by (simp add: decimal.simps digit_def)
  have d2: "decimal 65536 = ''65536''" by (simp add: decimal.simps digit_def)
  have "validateEvent exampleSer exampleSaveEvent mode =
      checkedDispatch exampleSer exampleSaveEvent
        [(''type'', JStr ''SAVE_GAME_STATE''), (''stateBlob'', exampleBlob),
         (''schemaVersion'', JNum (Fin 1))] mode"
    by (simp add: validateEvent_def exampleSaveEvent_def)
  then show "validateEvent exampleSer exampleSaveEvent mode =
     Inr \<lparr>valid = False, event = None,
          errors = [''Event exceeds size limit (70059 > 65536)''], warnings = []\<rparr>"
    by (simp add: checkedDispatch_def get_def has_def sz MAX_EVENT_SIZE_def d1 d2 reject_def)
qed

text \<open>When the validator accepts a state-save event.\<close>

lemma save_state_accepted_iff:
  assumes "get e ''type'' = JStr ''SAVE_GAME_STATE''"
  shows "(\<exists>res. validateEvent ser (JObj e) mode = Inr res \<and> valid res) \<longleftrightarrow>
     (estimateSize ser (JObj e) \<le> MAX_EVENT_SIZE \<and> has e ''stateBlob'' \<and>
      estimateSize ser (get e ''stateBlob'') \<le> MAX_STATE_BLOB_SIZE \<and>
      \<not> notNumberOrLess (get e ''schemaVersion'') 1)"
  using assms get_has [OF assms]
  by (auto simp: validateEvent_def checkedDispatch_def dispatch_def validateSaveGameState_def
      finish_def accept_def reject_def pushIf_def Let_def)


theorem non_numeric_analytics_omitted_or_rejected_witness:
  "(\<exists>res. validateEvent
            (serTable [(JObj [(''type'', JStr ''USER_SIGNAL''), (''signalType'', JStr ''enjoying''),
                              (''value'', JStr ''x'')], 58)])
            (JObj [(''type'', JStr ''USER_SIGNAL''), (''signalType'', JStr ''enjoying''),
                   (''value'', JStr ''x'')])
            Production = Inr res \<and>
          valid res \<and> \<not> cleanedHas res ''value'' \<and>
          warnings res = [''value was not a valid number, omitted'']) \<and>
   (\<exists>res. validateEvent
            (serTable [(JObj [(''type'', JStr ''PERFORMANCE_REPORTED''), (''hintsUsed'', JNull)], 48)])
            (JObj [(''type'', JStr ''PERFORMANCE_REPORTED''), (''hintsUsed'', JNull)])
            Production = Inr res \<and>
          \<not> valid res \<and> ''hintsUsed must be a number'' \<in> set (errors res))"
proof (intro conjI)
  let ?e = "[(''type'', JStr ''USER_SIGNAL''), (''signalType'', JStr ''enjoying''),
             (''value'', JStr ''x'')]"
  let ?ser = "serTable [(JObj ?e, 58)]"
  have s: "estimateSize ?ser (JObj ?e) \<le> MAX_EVENT_SIZE"
    by (simp add: serTable_def estimateSize_def MAX_EVENT_SIZE_def)
  have g: "get ?e ''value'' \<noteq> JUndefined" "\<not> finiteNumber (get ?e ''value'')"
    by (simp_all add: get_def finiteNumber_def)
  have h: "get ?e ''type'' = JStr ''USER_SIGNAL'' \<and>
      includes_str validSignalTypes (get ?e ''signalType'') \<and> ''value'' = ''value''"
    by (simp add: get_def includes_str_def validSignalTypes_def)
  show "\<exists>res. validateEvent ?ser (JObj ?e) Production = Inr res \<and> valid res \<and>
          \<not> cleanedHas res ''value'' \<and> warnings res = [''value was not a valid number, omitted'']"
    using non_numeric_analytics_omitted_or_rejected [OF s g, of Production] h by simp
next
  let ?e = "[(''type'', JStr ''PERFORMANCE_REPORTED''), (''hintsUsed'', JNull)]"
  let ?ser = "serTable [(JObj ?e, 48)]"
  have s: "estimateSize ?ser (JObj ?e) \<le> MAX_EVENT_SIZE"
    by (simp add: serTable_def estimateSize_def MAX_EVENT_SIZE_def)
  have g: "get ?e ''hintsUsed'' \<noteq> JUndefined" "\<not> finiteNumber (get ?e ''hintsUsed'')"
    by (simp_all add: get_def finiteNumber_def)
  have h: "get ?e ''type'' = JStr ''PERFORMANCE_REPORTED'' \<and>
      ''hintsUsed'' \<in> set (unitFields @ nonNegativeFields)"
    by (simp add: get_def unitFields_def nonNegativeFields_def)
  show "\<exists>res. validateEvent ?ser (JObj ?e) Production = Inr res \<and> \<not> valid res \<and>
          ''hintsUsed must be a number'' \<in> set (errors res)"
    using non_numeric_analytics_omitted_or_rejected [OF s g, of Production] h
    by (simp add: nonNegativeFields_def)
qed


section \<open>Properties of the lifecycle gate\<close>

text \<open>
  C2, as amended. The gated emit is a function of the option, the context and the event:
  equal arguments give equal results. Let the event's tag be a string, or any value that
  converts to a string. In \<open>INITIAL\<close> the gated emit forwards exactly the events of kind
  \<open>DEV_LOG\<close> and drops every other one with \<open>BEFORE_SESSION\<close>. In \<open>IN_SESSION\<close> an event is
  dropped with \<open>SESSION_ID_MISMATCH\<close> exactly when its property \<open>sessionId\<close> holds a string
  that differs from the context's session identifier, and every other event is forwarded:
  one without the property, one whose \<open>sessionId\<close> is the context's, and one whose
  \<open>sessionId\<close> is not a string. In \<open>ENDED\<close> every event is dropped with
  \<open>AFTER_SESSION_ENDED\<close>, except a \<open>DEV_LOG\<close> when the option \<open>allowDevLogAfterEnd\<close> is
  \<open>true\<close>; the option absent counts as \<open>false\<close>.
\<close>

theorem gated_emit_decision:
  "(ctx = InitialContext \<and> convertsToString (get e ''type'') \<longrightarrow>
      createGatedEmit options ctx e =
        (if get e ''type'' = JStr ''DEV_LOG'' then Forwarded e else Dropped e BEFORE_SESSION)) \<and>
   (\<forall>sid startTime. ctx = InSessionContext sid startTime \<longrightarrow>
      createGatedEmit options ctx e =
        (if \<exists>s. get e ''sessionId'' = JStr s \<and> s \<noteq> sid then Dropped e SESSION_ID_MISMATCH
         else Forwarded e)) \<and>
   (\<forall>sid duration. ctx = SessionEndedContext sid duration \<and>
      convertsToString (get e ''type'') \<longrightarrow>
      createGatedEmit options ctx e =
        (if get e ''type'' = JStr ''DEV_LOG'' \<and> allowDevLogAfterEnd options = Some True
         then Forwarded e else Dropped e AFTER_SESSION_ENDED))"
proof -
  have "has e ''sessionId''" if "get e ''sessionId'' = JStr s" for s
    using that by (rule get_has)
  then show ?thesis
    by (cases ctx)
       (auto simp: createGatedEmit_def dropNamingType_def hasSessionId_def
          split: option.splits jsval.splits)
qed

text \<open>
  The claim of C2 fails as stated. During the session \<open>s1\<close> the event
  \<open>{type: 'LEVEL_STARTED', sessionId: 7}\<close> carries a \<open>sessionId\<close> field that differs from the
  context's session identifier, and it is forwarded: the gate compares the field only when
  it holds a string.
\<close>

theorem gate_forwards_sessionId_that_is_not_a_string:
  "has [(''type'', JStr ''LEVEL_STARTED''), (''sessionId'', JNum (Fin 7))] ''sessionId'' \<and>
   get [(''type'', JStr ''LEVEL_STARTED''), (''sessionId'', JNum (Fin 7))] ''sessionId''
     \<noteq> JStr ''s1'' \<and>
   createGatedEmit \<lparr>allowDevLogAfterEnd = None\<rparr> (InSessionContext ''s1'' 1000)
      [(''type'', JStr ''LEVEL_STARTED''), (''sessionId'', JNum (Fin 7))]
     = Forwarded [(''type'', JStr ''LEVEL_STARTED''), (''sessionId'', JNum (Fin 7))]"
  by (simp add: createGatedEmit_def hasSessionId_def get_def has_def)

theorem gated_emit_decision_witness:
  "createGatedEmit \<lparr>allowDevLogAfterEnd = None\<rparr> InitialContext
      [(''type'', JStr ''LEVEL_STARTED''), (''sessionId'', JStr ''s1'')]
     = Dropped [(''type'', JStr ''LEVEL_STARTED''), (''sessionId'', JStr ''s1'')] BEFORE_SESSION \<and>
   createGatedEmit \<lparr>allowDevLogAfterEnd = None\<rparr> (InSessionContext ''s1'' 1000)
      [(''type'', JStr ''LEVEL_STARTED''), (''sessionId'', JStr ''s2'')]
     = Dropped [(''type'', JStr ''LEVEL_STARTED''), (''sessionId'', JStr ''s2'')] SESSION_ID_MISMATCH \<and>
   createGatedEmit \<lparr>allowDevLogAfterEnd = None\<rparr> (InSessionContext ''s1'' 1000)
      [(''type'', JStr ''LEVEL_STARTED''), (''sessionId'', JStr ''s1'')]
     = Forwarded [(''type'', JStr ''LEVEL_STARTED''), (''sessionId'', JStr ''s1'')] \<and>
   createGatedEmit \<lparr>allowDevLogAfterEnd = None\<rparr> (InSessionContext ''s1'' 1000)
      [(''type'', JStr ''DEV_LOG''), (''message'', JStr ''m'')]
     = Forwarded [(''type'', JStr ''DEV_LOG''), (''message'', JStr ''m'')] \<and>
   createGatedEmit \<lparr>allowDevLogAfterEnd = None\<rparr> (SessionEndedContext ''s1'' 500)
      [(''type'', JStr ''DEV_LOG''), (''message'', JStr ''m'')]
     = Dropped [(''type'', JStr ''DEV_LOG''), (''message'', JStr ''m'')] AFTER_SESSION_ENDED \<and>
   createGatedEmit \<lparr>allowDevLogAfterEnd = Some True\<rparr> (SessionEndedContext ''s1'' 500)
      [(''type'', JStr ''DEV_LOG''), (''message'', JStr ''m'')]
     = Forwarded [(''type'', JStr ''DEV_LOG''), (''message'', JStr ''m'')]"
  using gated_emit_decision [where ctx = InitialContext and options = "\<lparr>allowDevLogAfterEnd = None\<rparr>"
              and e = "[(''type'', JStr ''LEVEL_STARTED''), (''sessionId'', JStr ''s1'')]"]
        gated_emit_decision [where ctx = "InSessionContext ''s1'' 1000" and options = "\<lparr>allowDevLogAfterEnd = None\<rparr>"
              and e = "[(''type'', JStr ''LEVEL_STARTED''), (''sessionId'', JStr ''s2'')]"]
        gated_emit_decision [where ctx = "InSessionContext ''s1'' 1000" and options = "\<lparr>allowDevLogAfterEnd = None\<rparr>"
              and e = "[(''type'', JStr ''LEVEL_STARTED''), (''sessionId'', JStr ''s1'')]"]
        gated_emit_decision [where ctx = "InSessionContext ''s1'' 1000" and options = "\<lparr>allowDevLogAfterEnd = None\<rparr>"
              and e = "[(''type'', JStr ''DEV_LOG''), (''message'', JStr ''m'')]"]
        gated_emit_decision [where ctx = "SessionEndedContext ''s1'' 500" and options = "\<lparr>allowDevLogAfterEnd = None\<rparr>"
              and e = "[(''type'', JStr ''DEV_LOG''), (''message'', JStr ''m'')]"]
        gated_emit_decision [where ctx = "SessionEndedContext ''s1'' 500" and options = "\<lparr>allowDevLogAfterEnd = Some True\<rparr>"
              and e = "[(''type'', JStr ''DEV_LOG''), (''message'', JStr ''m'')]"]
  by (simp add: get_def)

section \<open>Properties of the event emitter\<close>

lemma deliver_eq:
  "deliver hs em i st = st\<lparr>calls := calls st @ map (\<lambda>j. (j, em)) [i..<i + length hs]\<rparr>"
proof (induction hs arbitrary: i st)
  case Nil
  then show ?case by simp
next
  case (Cons h hs)
  have "[i..<i + length (h # hs)] = i # [Suc i..<Suc i + length hs]"
    by (subst upt_rec) simp
  then show ?case
    by (simp add: Cons.IH split: option.splits)
qed

lemma validateEvent_valid_obj:
  "validateEvent ser ev m = Inr res \<Longrightarrow> valid res \<Longrightarrow> \<exists>e. ev = JObj e"
  by (auto simp: validateEvent_def checkedDispatch_def reject_def get_Nil split: jsval.splits)

lemma validateEvent_throws_obj:
  "validateEvent ser ev m = Inl x \<Longrightarrow> m = Development \<and> (\<exists>e. ev = JObj e)"
  using throws_iff [of ser ev m] by (auto simp: unrecognized_def split: jsval.splits)

lemma eventType_total: "ev \<noteq> JNull \<Longrightarrow> ev \<noteq> JUndefined \<Longrightarrow> \<exists>t. eventType ev = Inr t"
  by (cases ev) (simp_all add: eventType_def)

lemma checkRateLimit_droppedCount: "droppedCount (snd (checkRateLimit now st)) = droppedCount st"
  and checkRateLimit_eventCount: "eventCount (snd (checkRateLimit now st)) = eventCount st"
  and checkRateLimit_calls: "calls (snd (checkRateLimit now st)) = calls st"
  by (simp_all add: checkRateLimit_def Let_def)

lemma typeConverts_iff:
  "typeConverts ev \<longleftrightarrow>
     ev \<noteq> JNull \<and> ev \<noteq> JUndefined \<and> (\<forall>e. ev = JObj e \<longrightarrow> convertsToString (get e ''type''))"
  by (cases ev) (simp_all add: typeConverts_def eventType_def)

text \<open>
  When \<open>emit\<close> throws. A call that the limiter lets through throws in production mode on
  \<open>null\<close> and \<open>undefined\<close>, and in either mode when the event is valid and \<open>getSessionId\<close>
  throws; a call that the limiter refuses throws in development mode when \<open>event.type\<close>
  cannot be read or cannot be converted to a string. In every other case \<open>emit\<close> returns.
\<close>

lemma validateAndDeliver_throws_iff:
  "fst (validateAndDeliver ser config rd ev st) \<noteq> Returned \<longleftrightarrow>
     (\<exists>res. validateEvent ser ev (configMode config) = Inr res \<and> valid res) \<and>
     (\<exists>x. sessionIdNow rd = Inl x)"
  by (auto simp: validateAndDeliver_def Let_def split: sum.splits)

lemma emit_throws_iff:
  "fst (emit ser config rd ev st) \<noteq> Returned \<longleftrightarrow>
     (if fst (checkRateLimit (rateNow rd) st)
      then (configMode config = Production \<and> (ev = JNull \<or> ev = JUndefined)) \<or>
           (\<not> (configMode config = Production \<and> eventType ev = Inr (JStr ''DEV_LOG'')) \<and>
            (\<exists>res. validateEvent ser ev (configMode config) = Inr res \<and> valid res) \<and>
            (\<exists>x. sessionIdNow rd = Inl x))
      else configMode config = Development \<and> \<not> typeConverts ev)"
proof (cases "checkRateLimit (rateNow rd) st")
  case (Pair ok st1)
  show ?thesis
  proof (cases ok)
    case True
    have nn: "\<not> (\<exists>res. validateEvent ser ev (configMode config) = Inr res \<and> valid res)"
      if "ev = JNull \<or> ev = JUndefined"
      using that validateEvent_valid_obj [of ser ev "configMode config"] by auto
    show ?thesis
    proof (cases "configMode config")
      case Production
      show ?thesis
      proof (cases "eventType ev")
        case (Inl x)
        then have "ev = JNull \<or> ev = JUndefined"
          by (cases ev) (simp_all add: eventType_def)
        then show ?thesis using Pair True Production Inl by (simp add: emit_def)
      next
        case (Inr t)
        then have "ev \<noteq> JNull \<and> ev \<noteq> JUndefined" by (auto simp: eventType_def)
        then show ?thesis using Pair True Production Inr
          validateAndDeliver_throws_iff [of ser config rd ev st1]
          by (simp add: emit_def)
      qed
    next
      case Development
      then show ?thesis using Pair True validateAndDeliver_throws_iff [of ser config rd ev st1]
        by (simp add: emit_def)
    qed
  next
    case False
    then show ?thesis using Pair
      by (cases "configMode config"; cases ev)
         (simp_all add: emit_def eventType_def typeConverts_def Let_def)
  qed
qed

text \<open>
  The two sentences of the claim on contained exceptions hold. When the limiter lets the
  call through and the validator throws, the exception is caught and the event is dropped:
  only the dropped counter changes. When the event is valid and \<open>getSessionId\<close> returns,
  every handler is called once, in order, on the same enriched event, whether or not
  earlier handlers threw, and the call returns with the event counted as delivered.
\<close>

lemma emit_validator_throws:
  assumes "fst (checkRateLimit (rateNow rd) st)"
    and "validateEvent ser ev (configMode config) = Inl x"
  shows "emit ser config rd ev st =
        (Returned, (snd (checkRateLimit (rateNow rd) st))\<lparr>droppedCount := droppedCount st + 1\<rparr>)"
proof -
  have m: "configMode config = Development" using assms(2) validateEvent_throws_obj by blast
  obtain st1 where c: "checkRateLimit (rateNow rd) st = (True, st1)"
    using assms(1) by (cases "checkRateLimit (rateNow rd) st") auto
  have "droppedCount st1 = droppedCount st"
    using checkRateLimit_droppedCount [of "rateNow rd" st] c by simp
  then show ?thesis
    using assms(2) m c by (simp add: emit_def validateAndDeliver_def)
qed

lemma emit_fan_out:
  assumes "fst (checkRateLimit (rateNow rd) st)"
    and "\<not> (configMode config = Production \<and> eventType ev = Inr (JStr ''DEV_LOG''))"
    and "validateEvent ser ev (configMode config) = Inr res" and "valid res"
    and "sessionIdNow rd = Inr sid"
  shows "fst (emit ser config rd ev st) = Returned \<and>
      calls (snd (emit ser config rd ev st)) =
        calls st @ map (\<lambda>i. (i, enrich config rd sid ev res)) [0..<length (handlers config)] \<and>
      eventCount (snd (emit ser config rd ev st)) = eventCount st + 1 \<and>
      droppedCount (snd (emit ser config rd ev st)) = droppedCount st"
proof -
  obtain st1 where c: "checkRateLimit (rateNow rd) st = (True, st1)"
    using assms(1) by (cases "checkRateLimit (rateNow rd) st") auto
  have s1: "calls st1 = calls st" "eventCount st1 = eventCount st" "droppedCount st1 = droppedCount st"
    using checkRateLimit_calls [of "rateNow rd" st] checkRateLimit_eventCount [of "rateNow rd" st]
      checkRateLimit_droppedCount [of "rateNow rd" st] c by simp_all
  obtain e where e: "ev = JObj e" using assms(3,4) validateEvent_valid_obj by blast
  have "emit ser config rd ev st = validateAndDeliver ser config rd ev st1"
    using assms(2) c e by (cases "configMode config") (auto simp: emit_def eventType_def)
  then show ?thesis
    using assms(3,4,5) s1 by (simp add: validateAndDeliver_def Let_def deliver_eq)
qed

lemma sessionStarted_valid:
  "validateEvent sessionStartedSer sessionStarted m =
     Inr \<lparr>valid = True, event = Some sessionStarted, errors = [], warnings = []\<rparr>"
  by (simp add: sessionStartedSer_def sessionStarted_def serTable_def validateEvent_def
        checkedDispatch_def dispatch_def get_def has_def estimateSize_def MAX_EVENT_SIZE_def
        validateSessionStarted_def isValidSessionId_def pushIf_def finish_def accept_def)

text \<open>
  C1. The claim says that \<open>emit\<close> never throws, as the source's own comments do (\<open>NEVER
  throws\<close>, \<open>must never throw to honor the emit() contract\<close>). The code throws to its
  caller at three places that are outside any \<open>try\<close>. With a valid \<open>SESSION_STARTED\<close> event
  and a \<open>getSessionId\<close> that throws, \<open>emit\<close> throws what \<open>getSessionId\<close> threw, in both
  modes, after the limiter has counted the call and before any handler is called. In
  production mode \<open>emit(null)\<close> evaluates \<open>event.type\<close> before the validator is called and
  throws a \<open>TypeError\<close>. In development mode a rate-limited call builds its warning from
  \<open>event.type\<close>, and throws a \<open>TypeError\<close> on the object \<open>{type: {toString: 5}}\<close>.
\<close>

theorem emit_throws_to_its_caller:
  "emit sessionStartedSer (exampleConfig Development)
      ((readsAt 0)\<lparr>sessionIdNow := Inl (Error ''no session service'')\<rparr>) sessionStarted
      (createEventEmitter 0)
     = (Threw (Error ''no session service''), (createEventEmitter 0)\<lparr>eventsInWindow := 1\<rparr>) \<and>
   emit sessionStartedSer (exampleConfig Production)
      ((readsAt 0)\<lparr>sessionIdNow := Inl (Error ''no session service'')\<rparr>) sessionStarted
      (createEventEmitter 0)
     = (Threw (Error ''no session service''), (createEventEmitter 0)\<lparr>eventsInWindow := 1\<rparr>) \<and>
   fst (emit (serTable []) (exampleConfig Production) (readsAt 0) JNull (createEventEmitter 0))
     = Threw TypeError \<and>
   fst (emit (serTable []) (exampleConfig Development) (readsAt 0)
          (JObj [(''type'', JObj [(''toString'', JNum (Fin 5))])])
          ((createEventEmitter 0)\<lparr>eventsInWindow := 50\<rparr>))
     = Threw TypeError"
proof -
  have ok: "validateEvent sessionStartedSer sessionStarted m =
      Inr \<lparr>valid = True, event = Some sessionStarted, errors = [], warnings = []\<rparr>" for m
    by (rule sessionStarted_valid)
  have t: "eventType sessionStarted = Inr (JStr ''SESSION_STARTED'')"
    by (simp add: eventType_def sessionStarted_def get_def)
  have a: "emit sessionStartedSer (exampleConfig m)
      ((readsAt 0)\<lparr>sessionIdNow := Inl (Error ''no session service'')\<rparr>) sessionStarted
      (createEventEmitter 0)
     = (Threw (Error ''no session service''), (createEventEmitter 0)\<lparr>eventsInWindow := 1\<rparr>)" for m
    by (cases m)
       (simp_all add: emit_def validateAndDeliver_def ok t checkRateLimit_def createEventEmitter_def
          exampleConfig_def readsAt_def MAX_EVENTS_PER_SECOND_def RATE_LIMIT_WINDOW_MS_def Let_def)
  have b: "fst (emit (serTable []) (exampleConfig Production) (readsAt 0) JNull (createEventEmitter 0))
     = Threw TypeError"
    by (simp add: emit_def checkRateLimit_def createEventEmitter_def exampleConfig_def readsAt_def
        eventType_def MAX_EVENTS_PER_SECOND_def RATE_LIMIT_WINDOW_MS_def Let_def)
  have c: "fst (emit (serTable []) (exampleConfig Development) (readsAt 0)
          (JObj [(''type'', JObj [(''toString'', JNum (Fin 5))])])
          ((createEventEmitter 0)\<lparr>eventsInWindow := 50\<rparr>))
     = Threw TypeError"
    by (simp add: emit_def checkRateLimit_def createEventEmitter_def exampleConfig_def readsAt_def
        eventType_def get_def has_def MAX_EVENTS_PER_SECOND_def RATE_LIMIT_WINDOW_MS_def Let_def)
  show ?thesis using a b c by simp
qed

subsection \<open>The rate limiter\<close>

lemma deliver_rate:
  "rateLimitWindowStart (deliver hs em i st) = rateLimitWindowStart st"
  "eventsInWindow (deliver hs em i st) = eventsInWindow st"
  by (simp_all add: deliver_eq)

lemma validateAndDeliver_rate:
  "rateLimitWindowStart (snd (validateAndDeliver ser config rd ev st)) = rateLimitWindowStart st"
  "eventsInWindow (snd (validateAndDeliver ser config rd ev st)) = eventsInWindow st"
  by (simp_all add: validateAndDeliver_def Let_def deliver_rate split: sum.splits)

lemma emit_rate:
  "rateLimitWindowStart (snd (emit ser config rd ev st)) =
     rateLimitWindowStart (snd (checkRateLimit (rateNow rd) st))"
  "eventsInWindow (snd (emit ser config rd ev st)) =
     eventsInWindow (snd (checkRateLimit (rateNow rd) st))"
  by (auto simp: emit_def Let_def validateAndDeliver_rate split: prod.splits bool.splits sum.splits)

lemma emit_rate_limited:
  assumes "\<not> fst (checkRateLimit (rateNow rd) st)"
  shows "snd (emit ser config rd ev st) =
           (snd (checkRateLimit (rateNow rd) st))\<lparr>droppedCount := droppedCount st + 1\<rparr>"
proof -
  obtain st1 where c: "checkRateLimit (rateNow rd) st = (False, st1)"
    using assms by (cases "checkRateLimit (rateNow rd) st") auto
  have "droppedCount st1 = droppedCount st"
    using checkRateLimit_droppedCount [of "rateNow rd" st] c by simp
  then show ?thesis using c by (simp add: emit_def Let_def split: sum.splits)
qed

text \<open>The three ways a call passes the limiter, from a state within the ceiling.\<close>

lemma checkRateLimit_cases:
  assumes "eventsInWindow st \<le> 50"
  obtains
    (reset) "int now - int (rateLimitWindowStart st) \<ge> 1000"
      "fst (checkRateLimit now st)"
      "rateLimitWindowStart (snd (checkRateLimit now st)) = now"
      "eventsInWindow (snd (checkRateLimit now st)) = 1"
  | (admit) "int now - int (rateLimitWindowStart st) < 1000" "eventsInWindow st < 50"
      "fst (checkRateLimit now st)"
      "rateLimitWindowStart (snd (checkRateLimit now st)) = rateLimitWindowStart st"
      "eventsInWindow (snd (checkRateLimit now st)) = eventsInWindow st + 1"
  | (limit) "int now - int (rateLimitWindowStart st) < 1000" "eventsInWindow st = 50"
      "\<not> fst (checkRateLimit now st)"
      "rateLimitWindowStart (snd (checkRateLimit now st)) = rateLimitWindowStart st"
      "eventsInWindow (snd (checkRateLimit now st)) = 50"
proof -
  consider "int now - int (rateLimitWindowStart st) \<ge> 1000"
    | "int now - int (rateLimitWindowStart st) < 1000" "eventsInWindow st < 50"
    | "int now - int (rateLimitWindowStart st) < 1000" "eventsInWindow st = 50"
    using assms by linarith
  then show thesis
  proof cases
    case 1
    then show ?thesis
      by (intro reset) (simp_all add: checkRateLimit_def RATE_LIMIT_WINDOW_MS_def MAX_EVENTS_PER_SECOND_def)
  next
    case 2
    then show ?thesis
      by (intro admit) (simp_all add: checkRateLimit_def RATE_LIMIT_WINDOW_MS_def MAX_EVENTS_PER_SECOND_def)
  next
    case 3
    then show ?thesis
      by (intro limit) (simp_all add: checkRateLimit_def RATE_LIMIT_WINDOW_MS_def MAX_EVENTS_PER_SECOND_def)
  qed
qed

lemma admittedInWindow_Cons:
  "admittedInWindow w ((w', t, ok) # ds) = (if ok \<and> w' = w then 1 else 0) + admittedInWindow w ds"
  by (simp add: admittedInWindow_def)

lemma admittedInWindow_zero:
  "\<forall>(w', t, ok) \<in> set ds. w' \<noteq> w \<Longrightarrow> admittedInWindow w ds = 0"
  by (auto simp: admittedInWindow_def filter_empty_conv)

lemma window_bound:
  assumes "eventsInWindow st \<le> 50"
  shows "(\<forall>(w, t, ok) \<in> set (decisions ser config xs st).
            rateLimitWindowStart st \<le> w \<and> int t - int w < 1000) \<and>
         admittedInWindow (rateLimitWindowStart st) (decisions ser config xs st)
            + eventsInWindow st \<le> 50 \<and>
         (\<forall>w > rateLimitWindowStart st. admittedInWindow w (decisions ser config xs st) \<le> 50)"
  using assms
proof (induction xs arbitrary: st)
  case Nil
  then show ?case by (simp add: admittedInWindow_def)
next
  case (Cons x xs)
  obtain rd ev where x: "x = (rd, ev)" by (cases x)
  let ?now = "rateNow rd"
  let ?st' = "snd (emit ser config rd ev st)"
  let ?ds = "decisions ser config xs ?st'"
  let ?s = "rateLimitWindowStart st"
  show ?case
  using Cons.prems
  proof (cases rule: checkRateLimit_cases [of st "rateNow rd"])
    case reset
    have r: "rateLimitWindowStart ?st' = ?now" "eventsInWindow ?st' = 1"
      using reset by (simp_all add: emit_rate)
    have ih: "(\<forall>(w, t, ok) \<in> set ?ds. ?now \<le> w \<and> int t - int w < 1000) \<and>
         admittedInWindow ?now ?ds + 1 \<le> 50 \<and>
         (\<forall>w > ?now. admittedInWindow w ?ds \<le> 50)"
      using Cons.IH [of ?st'] r by simp
    have lt: "?s < ?now" using reset(1) by linarith
    have z: "admittedInWindow ?s ?ds = 0"
      using ih lt by (intro admittedInWindow_zero) auto
    have big: "\<And>w. ?s < w \<Longrightarrow> w < ?now \<Longrightarrow> admittedInWindow w ?ds = 0"
      using ih by (intro admittedInWindow_zero) auto
    have hd: "decisions ser config (x # xs) st = (?now, ?now, True) # ?ds"
      using reset by (simp add: x)
    have c1: "\<forall>(w, t, ok) \<in> set ((?now, ?now, True) # ?ds).
        ?s \<le> w \<and> int t - int w < 1000"
      using ih lt by auto
    have c2: "admittedInWindow ?s ((?now, ?now, True) # ?ds) + eventsInWindow st \<le> 50"
      using z lt Cons.prems by (simp add: admittedInWindow_Cons)
    have c3: "admittedInWindow w ((?now, ?now, True) # ?ds) \<le> 50" if "?s < w" for w
    proof -
      consider "w < ?now" | "w = ?now" | "?now < w" by linarith
      then show ?thesis
      proof cases
        case 1
        then show ?thesis using big [OF that] by (simp add: admittedInWindow_Cons)
      next
        case 2
        then show ?thesis using ih by (simp add: admittedInWindow_Cons)
      next
        case 3
        then show ?thesis using ih by (simp add: admittedInWindow_Cons)
      qed
    qed
    show ?thesis
      unfolding hd using c1 c2 c3 by blast
  next
    case admit
    have r: "rateLimitWindowStart ?st' = ?s" "eventsInWindow ?st' = eventsInWindow st + 1"
      using admit by (simp_all add: emit_rate)
    have ih: "(\<forall>(w, t, ok) \<in> set ?ds. ?s \<le> w \<and> int t - int w < 1000) \<and>
         admittedInWindow ?s ?ds + (eventsInWindow st + 1) \<le> 50 \<and>
         (\<forall>w > ?s. admittedInWindow w ?ds \<le> 50)"
      using Cons.IH [of ?st'] r admit(2) by simp
    show ?thesis
      unfolding x decisions.simps
      using admit ih
      by (simp add: admittedInWindow_Cons)
  next
    case limit
    have r: "rateLimitWindowStart ?st' = ?s" "eventsInWindow ?st' = 50"
      using limit by (simp_all add: emit_rate)
    have ih: "(\<forall>(w, t, ok) \<in> set ?ds. ?s \<le> w \<and> int t - int w < 1000) \<and>
         admittedInWindow ?s ?ds + 50 \<le> 50 \<and>
         (\<forall>w > ?s. admittedInWindow w ?ds \<le> 50)"
      using Cons.IH [of ?st'] r by simp
    show ?thesis
      unfolding x decisions.simps
      using limit ih
      by (simp add: admittedInWindow_Cons)
  qed
qed



lemma checkRateLimit_limited:
  assumes "\<not> fst (checkRateLimit now st)"
  shows "snd (checkRateLimit now st) = st"
  using assms
  by (auto simp: checkRateLimit_def Let_def MAX_EVENTS_PER_SECOND_def split: if_splits)


lemma length_filter_mono:
  "\<forall>x \<in> set xs. P x \<longrightarrow> Q x \<Longrightarrow> length (filter P xs) \<le> length (filter Q xs)"
  by (induction xs) auto

lemma length_filter_split:
  "length (filter P xs) =
     length (filter (\<lambda>x. P x \<and> R x) xs) + length (filter (\<lambda>x. P x \<and> \<not> R x) xs)"
  by (induction xs) auto

lemma window_separation:
  assumes "eventsInWindow st \<le> 50"
    and "sorted (map (\<lambda>(rd, ev). rateNow rd) xs)"
    and "\<forall>(rd, ev) \<in> set xs. rateLimitWindowStart st \<le> rateNow rd"
  shows "(\<forall>d \<in> set (decisions ser config xs st).
            fst d \<le> fst (snd d) \<and>
            (fst d = rateLimitWindowStart st \<or> rateLimitWindowStart st + 1000 \<le> fst d)) \<and>
         (\<forall>d1 \<in> set (decisions ser config xs st).
          \<forall>d2 \<in> set (decisions ser config xs st).
            fst d1 = fst d2 \<or> fst d1 + 1000 \<le> fst d2 \<or> fst d2 + 1000 \<le> fst d1)"
  using assms
proof (induction xs arbitrary: st)
  case Nil
  then show ?case by simp
next
  case (Cons x xs)
  obtain rd ev where x: "x = (rd, ev)" by (cases x)
  let ?now = "rateNow rd"
  let ?st' = "snd (emit ser config rd ev st)"
  let ?ds = "decisions ser config xs ?st'"
  let ?s = "rateLimitWindowStart st"
  let ?w = "rateLimitWindowStart (snd (checkRateLimit ?now st))"
  let ?h = "(?w, ?now, fst (checkRateLimit ?now st))"
  have le: "?s \<le> ?now" using Cons.prems(3) x by simp
  have later: "\<forall>(rd', ev') \<in> set xs. ?now \<le> rateNow rd'"
    using Cons.prems(2) x by auto
  have srt: "sorted (map (\<lambda>(rd, ev). rateNow rd) xs)"
    using Cons.prems(2) by simp
  have w: "(?w = ?s \<or> (?w = ?now \<and> ?s + 1000 \<le> ?now)) \<and> ?w \<le> ?now \<and>
      eventsInWindow (snd (checkRateLimit ?now st)) \<le> 50"
    using Cons.prems(1)
  proof (cases rule: checkRateLimit_cases [of st "rateNow rd"])
    case reset
    then show ?thesis by simp
  next
    case admit
    then show ?thesis using le by simp
  next
    case limit
    then show ?thesis using le by simp
  qed
  have r: "rateLimitWindowStart ?st' = ?w" "eventsInWindow ?st' \<le> 50"
    using w by (simp_all add: emit_rate)
  have "\<forall>(rd', ev') \<in> set xs. rateLimitWindowStart ?st' \<le> rateNow rd'"
    using later w r by fastforce
  then have ih: "(\<forall>d \<in> set ?ds. fst d \<le> fst (snd d) \<and> (fst d = ?w \<or> ?w + 1000 \<le> fst d)) \<and>
         (\<forall>d1 \<in> set ?ds. \<forall>d2 \<in> set ?ds.
            fst d1 = fst d2 \<or> fst d1 + 1000 \<le> fst d2 \<or> fst d2 + 1000 \<le> fst d1)"
    using Cons.IH [of ?st'] r srt by simp
  have hd: "decisions ser config (x # xs) st = ?h # ?ds"
    by (simp add: x)
  have c1: "\<forall>d \<in> set (?h # ?ds). fst d \<le> fst (snd d) \<and> (fst d = ?s \<or> ?s + 1000 \<le> fst d)"
  proof
    fix d assume "d \<in> set (?h # ?ds)"
    then consider "d = ?h" | "d \<in> set ?ds" by auto
    then show "fst d \<le> fst (snd d) \<and> (fst d = ?s \<or> ?s + 1000 \<le> fst d)"
    proof cases
      case 1
      then show ?thesis using w by auto
    next
      case 2
      then have "fst d \<le> fst (snd d) \<and> (fst d = ?w \<or> ?w + 1000 \<le> fst d)" using ih by blast
      then show ?thesis using w by auto
    qed
  qed
  have c2: "fst d1 = fst d2 \<or> fst d1 + 1000 \<le> fst d2 \<or> fst d2 + 1000 \<le> fst d1"
    if m1: "d1 \<in> set (?h # ?ds)" and m2: "d2 \<in> set (?h # ?ds)" for d1 d2
  proof -
    have t: "fst d = ?w \<or> ?w + 1000 \<le> fst d" if "d \<in> set (?h # ?ds)" for d
      using that ih by auto
    have "(d1 \<in> set ?ds \<and> d2 \<in> set ?ds) \<or> d1 = ?h \<or> d2 = ?h"
      using m1 m2 by auto
    then consider "d1 \<in> set ?ds" "d2 \<in> set ?ds" | "d1 = ?h" | "d2 = ?h"
      by blast
    then show ?thesis
    proof cases
      case 1
      then show ?thesis using ih by blast
    next
      case 2
      then show ?thesis using t [OF m2] by auto
    next
      case 3
      then show ?thesis using t [OF m1] by auto
    qed
  qed
  show ?case unfolding hd using c1 c2 by blast
qed

lemma fresh_window_bound:
  "admittedInWindow w (decisions ser config xs (createEventEmitter t0)) \<le> 50"
proof -
  let ?st0 = "createEventEmitter t0"
  let ?ds = "decisions ser config xs ?st0"
  have e: "eventsInWindow ?st0 \<le> 50" "rateLimitWindowStart ?st0 = t0"
    by (simp_all add: createEventEmitter_def)
  note wb = window_bound [OF e(1), of ser config xs]
  consider "w < t0" | "w = t0" | "t0 < w" by linarith
  then show ?thesis
  proof cases
    case 1
    have "admittedInWindow w ?ds = 0"
      using wb 1 e(2) by (intro admittedInWindow_zero) auto
    then show ?thesis by simp
  next
    case 2
    then show ?thesis using wb e(2) by simp
  next
    case 3
    then show ?thesis using wb e(2) by simp
  qed
qed

lemma rolling_second_bound:
  assumes "sorted (map (\<lambda>(rd, ev). rateNow rd) xs)"
    and "\<forall>(rd, ev) \<in> set xs. t0 \<le> rateNow rd"
  shows "admittedWithinSecondFrom lo (decisions ser config xs (createEventEmitter t0)) \<le> 100"
proof -
  let ?st0 = "createEventEmitter t0"
  let ?ds = "decisions ser config xs ?st0"
  let ?P = "\<lambda>d. snd (snd d) \<and> lo \<le> fst (snd d) \<and> fst (snd d) < lo + 1000"
  let ?R = "\<lambda>d. fst d \<le> lo"
  have e: "eventsInWindow ?st0 \<le> 50" "rateLimitWindowStart ?st0 = t0"
    by (simp_all add: createEventEmitter_def)
  have "\<forall>(rd, ev) \<in> set xs. rateLimitWindowStart ?st0 \<le> rateNow rd"
    using assms(2) e(2) by simp
  note ws = window_separation [OF e(1) assms(1) this, of ser config]
  have ord: "fst d \<le> fst (snd d)" if "d \<in> set ?ds" for d
    using ws that by blast
  have sep: "fst d1 = fst d2 \<or> fst d1 + 1000 \<le> fst d2 \<or> fst d2 + 1000 \<le> fst d1"
    if "d1 \<in> set ?ds" "d2 \<in> set ?ds" for d1 d2
    using ws that by blast
  have age: "int (fst (snd d)) - int (fst d) < 1000" if "d \<in> set ?ds" for d
    using window_bound [OF e(1), of ser config xs] that by fastforce
  have per: "\<And>w. admittedInWindow w ?ds \<le> 50"
    by (rule fresh_window_bound)
  have group: "length (filter Q ?ds) \<le> 50"
    if q: "\<And>d. d \<in> set ?ds \<Longrightarrow> Q d \<Longrightarrow> snd (snd d)"
      and same: "\<And>d1 d2. d1 \<in> set ?ds \<Longrightarrow> d2 \<in> set ?ds \<Longrightarrow> Q d1 \<Longrightarrow> Q d2 \<Longrightarrow> fst d1 = fst d2"
    for Q
  proof (cases "filter Q ?ds")
    case Nil
    then show ?thesis by simp
  next
    case (Cons d ds')
    have "d \<in> set (filter Q ?ds)" using Cons by simp
    then have din: "d \<in> set ?ds" "Q d" by simp_all
    have "\<forall>y \<in> set ?ds. Q y \<longrightarrow> (\<lambda>(w', t', ok'). ok' \<and> w' = fst d) y"
      using q same [OF _ din(1) _ din(2)] by (auto simp: case_prod_beta)
    then have "length (filter Q ?ds) \<le> length (filter (\<lambda>(w', t', ok'). ok' \<and> w' = fst d) ?ds)"
      by (rule length_filter_mono)
    then show ?thesis using per [of "fst d"] by (simp add: admittedInWindow_def)
  qed
  have g1: "length (filter (\<lambda>x. ?P x \<and> ?R x) ?ds) \<le> 50"
  proof (rule group)
    fix d assume "d \<in> set ?ds" "?P d \<and> ?R d"
    then show "snd (snd d)" by simp
  next
    fix d1 d2
    assume a: "d1 \<in> set ?ds" "d2 \<in> set ?ds" "?P d1 \<and> ?R d1" "?P d2 \<and> ?R d2"
    show "fst d1 = fst d2"
      using age [OF a(1)] age [OF a(2)] sep [OF a(1,2)] a(3,4) by auto
  qed
  have g2: "length (filter (\<lambda>x. ?P x \<and> \<not> ?R x) ?ds) \<le> 50"
  proof (rule group)
    fix d assume "d \<in> set ?ds" "?P d \<and> \<not> ?R d"
    then show "snd (snd d)" by simp
  next
    fix d1 d2
    assume a: "d1 \<in> set ?ds" "d2 \<in> set ?ds" "?P d1 \<and> \<not> ?R d1" "?P d2 \<and> \<not> ?R d2"
    show "fst d1 = fst d2"
      using ord [OF a(1)] ord [OF a(2)] sep [OF a(1,2)] a(3,4) by auto
  qed
  have "admittedWithinSecondFrom lo ?ds = length (filter ?P ?ds)"
    by (simp add: admittedWithinSecondFrom_def case_prod_unfold)
  also have "\<dots> = length (filter (\<lambda>x. ?P x \<and> ?R x) ?ds) + length (filter (\<lambda>x. ?P x \<and> \<not> ?R x) ?ds)"
    by (rule length_filter_split)
  also have "\<dots> \<le> 100" using g1 g2 by simp
  finally show ?thesis .
qed

text \<open>
  C4, as amended. The limiter counts per fixed window, not per rolling window: a window
  starts when the emitter is created and again at the first call made 1000 ms or more after
  the start of the current one. Along every sequence of calls of \<open>emit\<close> on a fresh emitter,
  at most 50 calls are let through under any one window start, and every call is decided
  under a window that started less than 1000 ms before it; when the clock never goes back,
  at most 100 calls are let through within any rolling second. A call that is not let
  through only increments the dropped counter: no handler is called and nothing is
  stored for later.
\<close>

theorem at_most_50_admitted_per_fixed_window:
  "(\<forall>w. admittedInWindow w (decisions ser config xs (createEventEmitter t0))
          \<le> MAX_EVENTS_PER_SECOND) \<and>
   (\<forall>(w, t, ok) \<in> set (decisions ser config xs (createEventEmitter t0)).
          int t - int w < RATE_LIMIT_WINDOW_MS) \<and>
   (sorted (map (\<lambda>(rd, ev). rateNow rd) xs) \<and> (\<forall>(rd, ev) \<in> set xs. t0 \<le> rateNow rd) \<longrightarrow>
      (\<forall>lo. admittedWithinSecondFrom lo (decisions ser config xs (createEventEmitter t0))
            \<le> 2 * MAX_EVENTS_PER_SECOND)) \<and>
   (\<not> fst (checkRateLimit (rateNow rd) st) \<longrightarrow>
      snd (emit ser config rd ev st) = st\<lparr>droppedCount := droppedCount st + 1\<rparr>)"
proof (intro conjI allI impI)
  let ?st0 = "createEventEmitter t0"
  let ?ds = "decisions ser config xs ?st0"
  have e: "eventsInWindow ?st0 \<le> 50"
    by (simp add: createEventEmitter_def)
  show "\<forall>(w, t, ok) \<in> set ?ds. int t - int w < RATE_LIMIT_WINDOW_MS"
    using window_bound [OF e, of ser config xs] by (auto simp: RATE_LIMIT_WINDOW_MS_def)
  show "admittedInWindow w ?ds \<le> MAX_EVENTS_PER_SECOND" for w
    using fresh_window_bound [of w ser config xs t0] by (simp add: MAX_EVENTS_PER_SECOND_def)
next
  fix lo
  assume "sorted (map (\<lambda>(rd, ev). rateNow rd) xs) \<and> (\<forall>(rd, ev) \<in> set xs. t0 \<le> rateNow rd)"
  then show "admittedWithinSecondFrom lo (decisions ser config xs (createEventEmitter t0))
      \<le> 2 * MAX_EVENTS_PER_SECOND"
    using rolling_second_bound [of xs t0 lo ser config] by (simp add: MAX_EVENTS_PER_SECOND_def)
next
  assume "\<not> fst (checkRateLimit (rateNow rd) st)"
  then show "snd (emit ser config rd ev st) = st\<lparr>droppedCount := droppedCount st + 1\<rparr>"
    using emit_rate_limited [of rd st ser config ev] checkRateLimit_limited [of "rateNow rd" st]
    by simp
qed

lemma emits_in_window:
  assumes "\<forall>(rd, ev) \<in> set xs. int (rateNow rd) - int (rateLimitWindowStart st) < 1000"
    and "eventsInWindow st \<le> 50"
  shows "rateLimitWindowStart (emits ser config xs st) = rateLimitWindowStart st \<and>
         eventsInWindow (emits ser config xs st) = min 50 (eventsInWindow st + length xs)"
  using assms
proof (induction xs arbitrary: st)
  case Nil
  then show ?case by simp
next
  case (Cons x xs)
  obtain rd ev where x: "x = (rd, ev)" by (cases x)
  let ?st' = "snd (emit ser config rd ev st)"
  have inw: "int (rateNow rd) - int (rateLimitWindowStart st) < 1000"
    using Cons.prems(1) x by simp
  have r: "rateLimitWindowStart ?st' = rateLimitWindowStart st \<and>
      eventsInWindow ?st' = min 50 (eventsInWindow st + 1)"
    using Cons.prems(2)
  proof (cases rule: checkRateLimit_cases [of st "rateNow rd"])
    case reset
    then show ?thesis using inw by simp
  next
    case admit
    then show ?thesis by (simp add: emit_rate)
  next
    case limit
    then show ?thesis by (simp add: emit_rate)
  qed
  have "\<forall>(rd, ev) \<in> set xs. int (rateNow rd) - int (rateLimitWindowStart ?st') < 1000"
    using Cons.prems(1) r by simp
  moreover have "eventsInWindow ?st' \<le> 50" using r by simp
  ultimately have "rateLimitWindowStart (emits ser config xs ?st') = rateLimitWindowStart ?st' \<and>
      eventsInWindow (emits ser config xs ?st') = min 50 (eventsInWindow ?st' + length xs)"
    by (rule Cons.IH)
  then show ?case using r by (simp add: x)
qed






lemma decisions_append:
  "decisions ser config (xs @ ys) st =
     decisions ser config xs st @ decisions ser config ys (emits ser config xs st)"
  by (induction xs arbitrary: st) auto

lemma decisions_in_window:
  assumes "\<forall>(rd, ev) \<in> set xs. int (rateNow rd) - int (rateLimitWindowStart st) < 1000"
    and "eventsInWindow st + length xs \<le> 50"
  shows "decisions ser config xs st =
           map (\<lambda>(rd, ev). (rateLimitWindowStart st, rateNow rd, True)) xs"
  using assms
proof (induction xs arbitrary: st)
  case Nil
  then show ?case by simp
next
  case (Cons x xs)
  obtain rd ev where x: "x = (rd, ev)" by (cases x)
  let ?st' = "snd (emit ser config rd ev st)"
  have inw: "int (rateNow rd) - int (rateLimitWindowStart st) < 1000"
    using Cons.prems(1) x by simp
  have lt: "eventsInWindow st < 50" using Cons.prems(2) by simp
  have c: "fst (checkRateLimit (rateNow rd) st)"
    "rateLimitWindowStart (snd (checkRateLimit (rateNow rd) st)) = rateLimitWindowStart st"
    "eventsInWindow (snd (checkRateLimit (rateNow rd) st)) = eventsInWindow st + 1"
    using inw lt
    by (simp_all add: checkRateLimit_def RATE_LIMIT_WINDOW_MS_def MAX_EVENTS_PER_SECOND_def)
  have r: "rateLimitWindowStart ?st' = rateLimitWindowStart st"
    "eventsInWindow ?st' = eventsInWindow st + 1"
    using c by (simp_all add: emit_rate)
  have "decisions ser config xs ?st' =
      map (\<lambda>(rd, ev). (rateLimitWindowStart ?st', rateNow rd, True)) xs"
    using Cons.prems r by (intro Cons.IH) auto
  then show ?case using c r by (simp add: x)
qed

text \<open>
  The claim of C4 fails as stated: with the emitter created at time 0, fifty calls at time
  999 and one call at time 1000 are all let through, 51 within the second that starts at
  999.
\<close>

theorem fifty_one_admitted_within_one_second:
  "admittedWithinSecondFrom 999
     (decisions sessionStartedSer (exampleConfig Development)
        (replicate 50 (readsAt 999, sessionStarted) @ [(readsAt 1000, sessionStarted)])
        (createEventEmitter 0)) = 51"
proof -
  let ?xs = "replicate 50 (readsAt 999, sessionStarted)"
  let ?st0 = "createEventEmitter 0"
  let ?ser = sessionStartedSer
  let ?cfg = "exampleConfig Development"
  have s0: "rateLimitWindowStart ?st0 = 0" "eventsInWindow ?st0 = 0"
    by (simp_all add: createEventEmitter_def)
  have inw: "\<forall>(rd, ev) \<in> set ?xs. int (rateNow rd) - int (rateLimitWindowStart ?st0) < 1000"
    by (simp add: readsAt_def s0)
  have d1: "decisions ?ser ?cfg ?xs ?st0 = replicate 50 (0, 999, True)"
    using decisions_in_window [OF inw, of ?ser ?cfg] s0
    by (simp add: readsAt_def map_replicate)
  have s1: "rateLimitWindowStart (emits ?ser ?cfg ?xs ?st0) = 0"
    "eventsInWindow (emits ?ser ?cfg ?xs ?st0) = 50"
    using emits_in_window [OF inw, of ?ser ?cfg] s0 by simp_all
  have d2: "decisions ?ser ?cfg [(readsAt 1000, sessionStarted)] (emits ?ser ?cfg ?xs ?st0)
      = [(1000, 1000, True)]"
    using s1
    by (simp add: checkRateLimit_def readsAt_def RATE_LIMIT_WINDOW_MS_def MAX_EVENTS_PER_SECOND_def)
  have "decisions ?ser ?cfg (?xs @ [(readsAt 1000, sessionStarted)]) ?st0
      = replicate 50 (0, 999, True) @ [(1000, 1000, True)]"
    by (simp only: decisions_append d1 d2)
  then show ?thesis
    by (simp add: admittedWithinSecondFrom_def)
qed

theorem at_most_50_admitted_per_fixed_window_witness:
  "admittedInWindow 0
     (decisions sessionStartedSer (exampleConfig Development)
        (replicate 50 (readsAt 999, sessionStarted) @ [(readsAt 1000, sessionStarted)])
        (createEventEmitter 0)) \<le> 50 \<and>
   admittedWithinSecondFrom 999
     (decisions sessionStartedSer (exampleConfig Development)
        (replicate 50 (readsAt 999, sessionStarted) @ [(readsAt 1000, sessionStarted)])
        (createEventEmitter 0)) \<le> 100 \<and>
   \<not> fst (checkRateLimit (rateNow (readsAt 5))
        ((createEventEmitter 0)\<lparr>eventsInWindow := 50\<rparr>)) \<and>
   snd (emit sessionStartedSer (exampleConfig Development) (readsAt 5) sessionStarted
        ((createEventEmitter 0)\<lparr>eventsInWindow := 50\<rparr>))
     = \<lparr>eventCount = 0, droppedCount = 1, rateLimitWindowStart = 0, eventsInWindow = 50,
        calls = []\<rparr>"
proof -
  let ?xs = "replicate 50 (readsAt 999, sessionStarted) @ [(readsAt 1000, sessionStarted)]"
  have l: "\<not> fst (checkRateLimit (rateNow (readsAt 5))
        ((createEventEmitter 0)\<lparr>eventsInWindow := 50\<rparr>))"
    by (simp add: checkRateLimit_def readsAt_def createEventEmitter_def
        RATE_LIMIT_WINDOW_MS_def MAX_EVENTS_PER_SECOND_def)
  have m: "sorted (map (\<lambda>(rd, ev). rateNow rd) ?xs) \<and> (\<forall>(rd, ev) \<in> set ?xs. 0 \<le> rateNow rd)"
    by (simp add: readsAt_def sorted_append)
  note a = at_most_50_admitted_per_fixed_window [of sessionStartedSer "exampleConfig Development"
      ?xs 0 "readsAt 5" "(createEventEmitter 0)\<lparr>eventsInWindow := 50\<rparr>" sessionStarted]
  show ?thesis
    using a l m by (simp add: MAX_EVENTS_PER_SECOND_def createEventEmitter_def)
qed



section \<open>Properties of the capability guard\<close>

text \<open>
  What holds of \<open>getCapability\<close>. It throws \<open>CapabilityNotDeclaredError\<close>, naming the
  capability, when the name is not in the declared set, before it calls anything. For a
  declared name whose permission check returns: when the check denies or the real factory
  throws, and the no-op factory returns, the result has \<open>isAvailable\<close> false, the API built
  by the no-op factory and a reason, the checker's when it gave one and \<open>internal_error\<close>
  otherwise; and \<open>getCapability\<close> throws only if the no-op factory throws.
\<close>

lemma getCapability_not_declared:
  "cap \<notin> set (declaredCapabilities config) \<Longrightarrow>
   getCapability config cap = Inl (CapabilityNotDeclaredError cap)"
  by (simp add: getCapability_def)

lemma getCapability_when_check_returns:
  assumes "cap \<in> set (declaredCapabilities config)" "permissionChecker config cap = Inr p"
  shows "((\<not> granted p \<or> (\<exists>e. apiFactory config cap = Inl e)) \<and>
          noOpApiFactory config cap = Inr n \<longrightarrow>
            getCapability config cap =
              Inr \<lparr>isAvailable = False, api = n,
                   unavailableReason =
                     Some (case reason p of Some r \<Rightarrow> r | None \<Rightarrow> ''internal_error'')\<rparr>) \<and>
         (getCapability config cap = Inl x \<longrightarrow> (\<exists>e. noOpApiFactory config cap = Inl e))"
  using assms
  by (auto simp: getCapability_def realApi_def split: option.splits sum.splits if_splits)

text \<open>
  C9. The claim says that for a declared capability \<open>getCapability\<close> throws only if the
  no-op factory throws. The code calls the permission checker outside any \<open>try\<close>, unlike
  the two factories: with a checker that throws, \<open>getCapability\<close> throws what the checker
  threw for the declared capability \<open>audio\<close>, although the no-op factory returns.
\<close>

theorem getCapability_throws_when_permission_check_throws:
  "''audio'' \<in> set (declaredCapabilities failingCheckerConfig) \<and>
   noOpApiFactory failingCheckerConfig ''audio'' = Inr ''noop-audio'' \<and>
   getCapability failingCheckerConfig ''audio'' = Inl (Error ''permission service unavailable'')"
  by (simp add: failingCheckerConfig_def getCapability_def permissionChecker_def)

text \<open>The guard on the two configurations whose checker returns, and on an undeclared name.\<close>

lemma getCapability_examples:
  "getCapability brokenFactoryConfig ''audio'' =
     Inr \<lparr>isAvailable = False, api = ''noop-audio'', unavailableReason = Some ''internal_error''\<rparr> \<and>
   getCapability deniedConfig ''haptics'' =
     Inr \<lparr>isAvailable = False, api = ''noop-haptics'', unavailableReason = Some ''quiet mode''\<rparr> \<and>
   getCapability deniedConfig ''sensors'' = Inl (CapabilityNotDeclaredError ''sensors'')"
  by (simp add: brokenFactoryConfig_def deniedConfig_def permissionChecker_def
        defaultPermissionChecker_def quietModeChecker_def getCapability_def realApi_def)

section \<open>Properties of the session driver\<close>

subsection \<open>Whatever the listeners do\<close>




lemma started_update [simp]:
  "started (s\<lparr>sessionId := a\<rparr>) = started s"
  "started (s\<lparr>startTime := b\<rparr>) = started s"
  "started (s\<lparr>sessionDurationMs := c\<rparr>) = started s"
  "started (s\<lparr>currentState := d\<rparr>) = started s"
  "started (s\<lparr>listeners := e\<rparr>) = started s"
  by (simp_all add: started_def)





subsection \<open>Listeners that only observe\<close>




lemma live_append: "live (xs @ ys) = live xs @ live ys"
  by (induction xs rule: live.induct) simp_all




text \<open>A bound that covers the entries is enough for the loop to come to its end.\<close>

lemma notifyFrom_observers_finishes:
  assumes "observers react"
  shows "length (listeners s) \<le> i + n \<Longrightarrow> fst (notifyFrom n react ctx i s)"
proof (induction n arbitrary: i s)
  case 0
  then show ?case by simp
next
  case (Suc n)
  show ?case
  proof (cases "length (listeners s) \<le> i")
    case True
    then show ?thesis by simp
  next
    case False
    show ?thesis
    proof (cases "listeners s ! i")
      case None
      then show ?thesis using False Suc.IH [of s "Suc i"] Suc.prems by simp
    next
      case (Some l)
      obtain thrown where f: "react l ctx (s\<lparr>notified := notified s @ [(l, ctx)]\<rparr>) = Finish thrown"
        using assms unfolding observers_def by blast
      show ?thesis using False Some f Suc.IH [of "s\<lparr>notified := notified s @ [(l, ctx)]\<rparr>" "Suc i"] Suc.prems
        by simp
    qed
  qed
qed







lemma live_subscribe:
  "live (if Some l \<in> set es then es else es @ [Some l]) = (if Some l \<in> set es then live es else live es @ [l])"
  by (simp add: live_append)























lemma hostCall_returns:
  assumes "observers react" "length (listeners s) \<le> n"
  shows "fst (hostCall n react c s) \<noteq> None"
proof -
  have f: "\<And>ctx s1. listeners s1 = listeners s \<Longrightarrow> fst (notifyFrom n react ctx 0 s1)"
    using notifyFrom_observers_finishes [OF assms(1)] assms(2) by simp
  have nl: "\<exists>y. fst (notifyListeners (\<lambda>ctx s1. notifyFrom n react ctx 0 s1) s1) = Some y"
    if "listeners s1 = listeners s" for s1
  proof (cases "createContextSnapshot s1")
    case (Inl x)
    then show ?thesis by (simp add: notifyListeners_def)
  next
    case (Inr ctx)
    then show ?thesis using f [OF that, of ctx]
      by (cases "notifyFrom n react ctx 0 s1") (simp add: notifyListeners_def)
  qed
  show ?thesis
  proof (cases c)
    case (StartSession sid t)
    then show ?thesis using nl [of "s\<lparr>sessionId := Some sid, startTime := Some now, currentState := IN_SESSION\<rparr>" for now]
      by (cases t) (auto simp: hostCall_def startSession_def)
  next
    case (EndSession r t)
    then show ?thesis using nl [of "s\<lparr>sessionDurationMs := d, currentState := ENDED\<rparr>" for d]
      by (cases t) (auto simp: hostCall_def endSession_def)
  next
    case (AbortSession r t)
    then show ?thesis using nl [of "s\<lparr>sessionDurationMs := d, currentState := ENDED\<rparr>" for d]
      by (cases t) (auto simp: hostCall_def abortSession_def)
  next
    case (Subscribe l)
    then show ?thesis by (simp add: hostCall_def)
  next
    case (Unsubscribe l)
    then show ?thesis by (simp add: hostCall_def)
  qed
qed


lemmas driver_defs =
  observedBy_def createSessionDriver_def hostCall_def startSession_def endSession_def
  notifyListeners_def createContextSnapshot_def createTimestamp_def createDuration_def
  subscribe_def isIntegral_def eval_nat_numeral



subsection \<open>A clock with fractions, and a listener that calls the driver\<close>

text \<open>
  Two behaviours of the driver outside the conditions above. With a clock that returns
  1000.5 and then 2000.5, \<open>startSession\<close> enters \<open>IN_SESSION\<close> and then throws, from
  \<open>createTimestamp\<close>, before any listener is called; \<open>endSession\<close> then notifies, and a
  listener subscribed from the beginning observes \<open>ENDED\<close> alone. With a listener that
  ends the session while it is notified of its start, the listener subscribed after it
  observes \<open>ENDED\<close> before \<open>IN_SESSION\<close>.
\<close>

lemma floor_of_a_reading_with_fraction: "\<lfloor>2001 / 2 :: rat\<rfloor> = 1000"
  by (simp add: floor_eq_iff)

lemma fractional_clock_hides_the_start:
  "hostCall 5 alwaysThrows (StartSession ''s1'' (Inr (Fin (2001 / 2))))
      (subscribe 0 createSessionDriver) =
     (Some (Threw InvalidTimestampError),
      (subscribe 0 createSessionDriver)
        \<lparr>sessionId := Some ''s1'', startTime := Some (Fin (2001 / 2)), currentState := IN_SESSION\<rparr>) \<and>
   observedBy 0 (run 5 alwaysThrows
      [Subscribe 0, StartSession ''s1'' (Inr (Fin (2001 / 2))),
       EndSession ''completed'' (Inr (Fin (4001 / 2)))]
      createSessionDriver) = [ENDED]"
  by (simp add: driver_defs alwaysThrows_def floor_of_a_reading_with_fraction)

lemma listener_that_ends_the_session_reverses_the_order:
  "observedBy 0 (run 5 endsWhenStarted
      [Subscribe 0, Subscribe 1, StartSession ''s1'' (Inr (Fin 1000))] createSessionDriver)
     = [IN_SESSION, ENDED] \<and>
   observedBy 1 (run 5 endsWhenStarted
      [Subscribe 0, Subscribe 1, StartSession ''s1'' (Inr (Fin 1000))] createSessionDriver)
     = [ENDED, IN_SESSION]"
  by (simp add: driver_defs endsWhenStarted_def)

end
